theory Spec2Isabelle
  imports Main
begin

section \<open>Actions and tasks (eliot/_action.py)\<close>

text \<open>
  Actions have a beginning and an eventual end and can be nested; tasks are top-level
  actions. Python objects live in a store addressed by references, because an action
  is shared between the execution context, its creator and its children. Attributes keep
  their names without the leading underscore; a parameter named like an attribute is
  shortened (\<open>lgr\<close>, \<open>atype\<close>, \<open>sers\<close>, \<open>flds\<close>).
\<close>

subsection \<open>Values\<close>

type_synonym ref = nat
type_synonym tid = nat
type_synonym logger = nat

datatype pyval = PStr string | PInt int | PBool bool | PNone

type_synonym fields = "string \<rightharpoonup> pyval"

text \<open>An exception object: the module and name of its class, and its text.\<close>

record pyexception =
  class_module :: string
  class_name :: string
  text_of :: string

text \<open>
  What a call can raise: the \<open>IndexError\<close> of \<open>list.pop\<close> on an empty list, or
  an exception object that a collaborator raises.
\<close>

datatype error = IndexError | Raised pyexception

text \<open>
  Modelled from the spec: \<open>safeunicode\<close> is imported from \<open>eliot._util\<close>, a module
  that is not translated here. It yields the best-effort string form of the exception, a
  fixed placeholder when the conversion itself fails; \<open>text_of\<close> stands for the string
  it yields.
\<close>

definition safeunicode :: "pyexception \<Rightarrow> string" where
  "safeunicode e = text_of e"

text \<open>
  Python's \<open>unicode(n)\<close> on a non-negative integer: its decimal digits. The number of
  children starts at 0 and only grows, so it is a \<open>nat\<close>.
\<close>

definition digit_char :: "nat \<Rightarrow> char" where
  "digit_char d = ''0123456789'' ! d"

fun unicode_nat :: "nat \<Rightarrow> string" where
  "unicode_nat n =
     (if n < 10 then [digit_char n] else unicode_nat (n div 10) @ [digit_char (n mod 10)])"

declare unicode_nat.simps [simp del]

text \<open>
  Decimal notation, read the other way: the number that a string of digits denotes. The
  decimal rendering of \<open>n\<close> is the string of digits without a leading zero that denotes
  \<open>n\<close>.
\<close>

definition digit_value :: "char \<Rightarrow> nat" where
  "digit_value c = of_char c - 48"

definition decimal_value :: "string \<Rightarrow> nat" where
  "decimal_value s = foldl (\<lambda>a c. 10 * a + digit_value c) 0 s"

text \<open>Truth value of an object, as the \<open>with\<close> statement reads what \<open>__exit__\<close> returns.\<close>

fun truthy :: "pyval \<Rightarrow> bool" where
  "truthy PNone = False"
| "truthy (PBool b) = b"
| "truthy (PInt i) = (i \<noteq> 0)"
| "truthy (PStr s) = (s \<noteq> [])"

subsection \<open>The execution context\<close>

text \<open>
  \<open>_ExecutionContext\<close> derives from \<open>threading.local\<close>: every thread sees its own
  \<open>_stack\<close>, set to the empty list by \<open>__init__\<close> on the thread's first use. The top
  of the stack is the end of the list.
\<close>

type_synonym execution_context = "tid \<Rightarrow> ref list"

definition ExecutionContext_init :: execution_context where
  "ExecutionContext_init = (\<lambda>t. [])"

definition push :: "tid \<Rightarrow> ref \<Rightarrow> execution_context \<Rightarrow> execution_context" where
  "push t action ctx = ctx (t := ctx t @ [action])"

definition pop :: "tid \<Rightarrow> execution_context \<Rightarrow> error + execution_context" where
  "pop t ctx = (if ctx t = [] then Inl IndexError else Inr (ctx (t := butlast (ctx t))))"

definition current :: "tid \<Rightarrow> execution_context \<Rightarrow> ref option" where
  "current t ctx = (if ctx t = [] then None else Some (last (ctx t)))"

subsection \<open>Actions\<close>

text \<open>
  A serializer takes the raw field mapping and returns a field mapping, possibly
  transformed, or signals a validation failure by raising an exception.
\<close>

type_synonym serializer = "fields \<Rightarrow> pyexception + fields"

record action_serializers =
  start :: serializer
  success :: serializer
  failure :: serializer

record ident =
  task_uuid :: string
  task_level :: string
  action_type :: string

text \<open>
  \<open>_identification\<close> is a dictionary with exactly these three keys, built by
  \<open>__init__\<close> from its string arguments and never assigned to afterwards. Reading a
  key is reading the field; \<open>identification_fields\<close> is the dictionary as \<open>update\<close>
  reads it.
\<close>

definition identification_fields :: "ident \<Rightarrow> fields" where
  "identification_fields i =
     [''task_uuid'' \<mapsto> PStr (task_uuid i),
      ''task_level'' \<mapsto> PStr (task_level i),
      ''action_type'' \<mapsto> PStr (action_type i)]"

record action =
  numberOfChildren :: nat
  numberOfMessages :: nat
  successFields :: fields
  logger_of :: logger
  identification :: ident
  serializers :: "action_serializers option"
  finished :: bool

definition Action_init ::
  "logger \<Rightarrow> string \<Rightarrow> string \<Rightarrow> string \<Rightarrow> action_serializers option \<Rightarrow> action" where
  "Action_init lgr uuid level atype sers =
     \<lparr>numberOfChildren = 0,
      numberOfMessages = 0,
      successFields = Map.empty,
      logger_of = lgr,
      identification = \<lparr>task_uuid = uuid, task_level = level, action_type = atype\<rparr>,
      serializers = sers,
      finished = False\<rparr>"

text \<open>\<open>next\<close> on \<open>iter(count())\<close>: yields the counter and advances it.\<close>

definition incrementMessageCounter :: "action \<Rightarrow> nat \<times> action" where
  "incrementMessageCounter a =
     (numberOfMessages a, a\<lparr>numberOfMessages := Suc (numberOfMessages a)\<rparr>)"

subsection \<open>Messages and the world\<close>

record message =
  contents :: fields
  serializer :: "serializer option"

text \<open>
  One call of \<open>write\<close>: the message, the logger and action it was written to and
  within, the counter drawn, and what the serializer made of the fields: the mapping that
  the logger got, or the validation failure that the call raised.
\<close>

record delivery =
  message :: "message"
  written_to :: logger
  within :: ref
  action_counter :: nat
  serialized :: "pyexception + fields"

text \<open>
  The world: the objects, the thread-local context \<open>_context\<close>, and the calls of
  \<open>write\<close> made so far, oldest first. The references below \<open>next_ref\<close> are those of
  the actions created so far; what the heap holds at another reference is of no
  consequence, a new object replaces it.
\<close>

record world =
  heap :: "ref \<Rightarrow> action"
  next_ref :: ref
  the_context :: execution_context
  deliveries :: "delivery list"

definition modify :: "ref \<Rightarrow> (action \<Rightarrow> action) \<Rightarrow> world \<Rightarrow> world" where
  "modify r f w = w\<lparr>heap := (heap w) (r := f (heap w r))\<rparr>"

text \<open>Creating an object: it gets the next unused reference.\<close>

definition new_action :: "action \<Rightarrow> world \<Rightarrow> ref \<times> world" where
  "new_action a w =
     (next_ref w, w\<lparr>heap := (heap w) (next_ref w := a), next_ref := Suc (next_ref w)\<rparr>)"

text \<open>
  Modelled from the spec: \<open>Message\<close> and its \<open>write\<close> are imported from
  \<open>eliot._message\<close>, a module that is not translated here. \<open>Message(fields,
  serializer)\<close> is the record \<open>message\<close>. Writing it draws the action's message
  counter, which so advances each time a message is logged within the action; applies the
  serializer, if there is one, to the field mapping as it is at the time of the call; and
  hands the result to the logger, with the originating action. A validation failure of
  the serializer is not swallowed: the call raises it, and it passes through \<open>_start\<close>
  and \<open>finish\<close> to their caller.
\<close>

definition serialize :: "serializer option \<Rightarrow> fields \<Rightarrow> pyexception + fields" where
  "serialize ser flds = (case ser of None \<Rightarrow> Inr flds | Some s \<Rightarrow> s flds)"

definition Message_write :: "message \<Rightarrow> logger \<Rightarrow> ref \<Rightarrow> world \<Rightarrow> error option \<times> world" where
  "Message_write m lgr act w =
     (let (n, a) = incrementMessageCounter (heap w act);
          out = serialize (serializer m) (contents m);
          w1 = w\<lparr>heap := (heap w) (act := a),
                deliveries := deliveries w @
                  [\<lparr>message = m, written_to = lgr, within = act, action_counter = n,
                    serialized = out\<rparr>]\<rparr>
      in (case out of Inl e \<Rightarrow> Some (Raised e) | Inr x \<Rightarrow> None, w1))"

text \<open>The messages that reached a logger.\<close>

definition logged :: "world \<Rightarrow> delivery list" where
  "logged w = filter (\<lambda>d. \<not> isl (serialized d)) (deliveries w)"

text \<open>What a call raised, if it did not return.\<close>

definition raised :: "error + 'a \<Rightarrow> error option" where
  "raised r = (case r of Inl err \<Rightarrow> Some err | Inr x \<Rightarrow> None)"

text \<open>
  A call yields what it raised or returned, and the world it left: what a call has done
  before it raises stays done.

  \<open>_start\<close>. The assignments change the caller's dictionary too; for \<open>startAction\<close>
  and \<open>startTask\<close> that is the dictionary of the keyword arguments, which nobody else
  holds.
\<close>

definition Action_start :: "ref \<Rightarrow> fields \<Rightarrow> world \<Rightarrow> error option \<times> world" where
  "Action_start self flds w =
     (let a = heap w self;
          flds1 = flds (''action_status'' \<mapsto> PStr ''started'');
          flds2 = flds1 ++ identification_fields (identification a);
          ser = (case serializers a of None \<Rightarrow> None | Some s \<Rightarrow> Some (start s))
      in Message_write \<lparr>contents = flds2, serializer = ser\<rparr> (logger_of a) self w)"

text \<open>
  In the success branch \<open>fields\<close> is the very dictionary \<open>_successFields\<close>, so both
  assignments to it also change the action's accumulator. The flag is set before the
  message is written.
\<close>

definition finish :: "ref \<Rightarrow> pyexception option \<Rightarrow> world \<Rightarrow> error option \<times> world" where
  "finish self exception w =
     (if finished (heap w self) then (None, w)
      else
        let w1 = modify self (\<lambda>a. a\<lparr>finished := True\<rparr>) w;
            a = heap w1 self
        in (case exception of
              None \<Rightarrow>
                let flds1 = (successFields a) (''action_status'' \<mapsto> PStr ''succeeded'');
                    ser = (case serializers a of None \<Rightarrow> None | Some s \<Rightarrow> Some (success s));
                    flds2 = flds1 ++ identification_fields (identification a);
                    w2 = modify self (\<lambda>a. a\<lparr>successFields := flds2\<rparr>) w1
                in Message_write \<lparr>contents = flds2, serializer = ser\<rparr> (logger_of a) self w2
            | Some e \<Rightarrow>
                let flds1 = [''exception'' \<mapsto> PStr (class_module e @ ''.'' @ class_name e),
                             ''reason'' \<mapsto> PStr (safeunicode e),
                             ''action_status'' \<mapsto> PStr ''failed''];
                    ser = (case serializers a of None \<Rightarrow> None | Some s \<Rightarrow> Some (failure s));
                    flds2 = flds1 ++ identification_fields (identification a)
                in Message_write \<lparr>contents = flds2, serializer = ser\<rparr> (logger_of a) self w1))"

definition child ::
  "ref \<Rightarrow> logger \<Rightarrow> string \<Rightarrow> action_serializers option \<Rightarrow> world \<Rightarrow> ref \<times> world" where
  "child self lgr atype sers w =
     (let w1 = modify self (\<lambda>a. a\<lparr>numberOfChildren := numberOfChildren a + 1\<rparr>) w;
          a = heap w1 self;
          newLevel = task_level (identification a) @ unicode_nat (numberOfChildren a) @ ''/''
      in new_action (Action_init lgr (task_uuid (identification a)) newLevel atype sers) w1)"

definition addSuccessFields :: "ref \<Rightarrow> fields \<Rightarrow> world \<Rightarrow> world" where
  "addSuccessFields self flds w =
     modify self (\<lambda>a. a\<lparr>successFields := successFields a ++ flds\<rparr>) w"

text \<open>
  \<open>__enter__\<close> returns the action itself. \<open>__exit__\<close> uses only the exception among
  its three arguments and returns \<open>None\<close>; when \<open>pop\<close> raises, \<open>finish\<close> is not
  reached.
\<close>

definition enter :: "tid \<Rightarrow> ref \<Rightarrow> world \<Rightarrow> ref \<times> world" where
  "enter t self w = (self, w\<lparr>the_context := push t self (the_context w)\<rparr>)"

definition exit :: "tid \<Rightarrow> ref \<Rightarrow> pyexception option \<Rightarrow> world \<Rightarrow> (error + pyval) \<times> world" where
  "exit t self exception w =
     (case pop t (the_context w) of
        Inl err \<Rightarrow> (Inl err, w)
      | Inr ctx \<Rightarrow>
          let (r, w1) = finish self exception (w\<lparr>the_context := ctx\<rparr>)
          in (case r of Some err \<Rightarrow> Inl err | None \<Rightarrow> Inr PNone, w1))"

subsection \<open>startAction and startTask\<close>

text \<open>
  \<open>uuid4\<close> is the text of the identifier that the call of \<open>uuid4()\<close> draws. The
  extra keyword arguments are the mapping \<open>flds\<close>; Python binds a keyword named like a
  parameter to that parameter, so the mapping of a real call has no key \<open>logger\<close>,
  \<open>action_type\<close> or \<open>_serializers\<close>, while the model accepts any mapping. When
  \<open>_start\<close> raises, the action is not returned.
\<close>

definition startTask ::
  "logger \<Rightarrow> string \<Rightarrow> action_serializers option \<Rightarrow> fields \<Rightarrow> string \<Rightarrow> world
     \<Rightarrow> (error + ref) \<times> world" where
  "startTask lgr atype sers flds uuid4 w =
     (let (action, w1) = new_action (Action_init lgr uuid4 ''/'' atype sers) w;
          (r, w2) = Action_start action flds w1
      in (case r of Some err \<Rightarrow> Inl err | None \<Rightarrow> Inr action, w2))"

definition startAction ::
  "tid \<Rightarrow> logger \<Rightarrow> string \<Rightarrow> action_serializers option \<Rightarrow> fields \<Rightarrow> string \<Rightarrow> world
     \<Rightarrow> (error + ref) \<times> world" where
  "startAction t lgr atype sers flds uuid4 w =
     (case current t (the_context w) of
        None \<Rightarrow> startTask lgr atype sers flds uuid4 w
      | Some parent \<Rightarrow>
          let (action, w1) = child parent lgr atype sers w;
              (r, w2) = Action_start action flds w1
          in (case r of Some err \<Rightarrow> Inl err | None \<Rightarrow> Inr action, w2))"

subsection \<open>The with statement\<close>

text \<open>
  Python's \<open>with\<close> statement around an action: \<open>__enter__\<close>, the body, then
  \<open>__exit__\<close> with the exception that left the body (\<open>None\<close> after a normal
  exit). What \<open>__exit__\<close> raises reaches the caller in place of that exception;
  otherwise the exception is swallowed only when \<open>__exit__\<close> returns a true value.
  The body yields the exception that leaves it; the statement yields what reaches its
  caller.
\<close>

definition with_statement ::
  "tid \<Rightarrow> ref \<Rightarrow> (ref \<Rightarrow> world \<Rightarrow> pyexception option \<times> world) \<Rightarrow> world
     \<Rightarrow> error option \<times> world" where
  "with_statement t mgr body w =
     (let (target, w1) = enter t mgr w;
          (exc, w2) = body target w1;
          (r, w3) = exit t mgr exc w2
      in (case r of
            Inl err \<Rightarrow> Some err
          | Inr ret \<Rightarrow>
              (case exc of
                 None \<Rightarrow> None
               | Some e \<Rightarrow> if truthy ret then None else Some (Raised e)),
          w3))"

subsection \<open>Finishing after a Deferred\<close>

text \<open>
  What a Deferred carries when it fires: a plain result, or a \<open>Failure\<close> wrapping an
  exception (its \<open>value\<close>).
\<close>

datatype 'r outcome = Result 'r | Failure pyexception

text \<open>A callback is a Python function of the result; it returns the next result or raises.\<close>

type_synonym 'r callback = "'r outcome \<Rightarrow> world \<Rightarrow> (error + 'r outcome) \<times> world"

text \<open>The exception object that a \<open>Failure\<close> wraps when a callback has raised.\<close>

fun raised_object :: "error \<Rightarrow> pyexception" where
  "raised_object (Raised e) = e"
| "raised_object IndexError =
     \<lparr>class_module = ''exceptions'', class_name = ''IndexError'',
      text_of = ''pop from empty list''\<rparr>"

text \<open>
  Modelled from the spec: the Deferred is Twisted's and not translated here. It is a
  future-like handle on which completion continuations are registered, each of which
  fires exactly once. As long as the handle has not fired, \<open>addBoth\<close> only registers;
  when it fires, the continuations run in the order of registration, each receiving what
  the one before it returned, or a \<open>Failure\<close> of what that one raised. On a handle
  that has fired already, \<open>addBoth\<close> runs the continuation at once, as Twisted's
  does, on the result the handle holds, and the handle then holds what the continuation
  returned. A handle fires once; firing it again runs nothing.
\<close>

record 'r deferred =
  callbacks :: "'r callback list"
  fired :: "'r outcome option"

fun runCallbacks :: "'r callback list \<Rightarrow> 'r outcome \<Rightarrow> world \<Rightarrow> 'r outcome \<times> world" where
  "runCallbacks [] result w = (result, w)"
| "runCallbacks (k # ks) result w =
     (let (r, w1) = k result w;
          result1 = (case r of Inl err \<Rightarrow> Failure (raised_object err) | Inr res \<Rightarrow> res)
      in runCallbacks ks result1 w1)"

definition addBoth :: "'r callback \<Rightarrow> 'r deferred \<Rightarrow> world \<Rightarrow> 'r deferred \<times> world" where
  "addBoth k d w =
     (case fired d of
        None \<Rightarrow> (d\<lparr>callbacks := callbacks d @ [k]\<rparr>, w)
      | Some result \<Rightarrow>
          let (result1, w1) = runCallbacks [k] result w
          in (d\<lparr>fired := Some result1\<rparr>, w1))"

definition fire :: "'r deferred \<Rightarrow> 'r outcome \<Rightarrow> world \<Rightarrow> 'r deferred \<times> world" where
  "fire d result w =
     (case fired d of
        Some held \<Rightarrow> (d, w)
      | None \<Rightarrow>
          let (result1, w1) = runCallbacks (callbacks d) result w
          in (d\<lparr>callbacks := [], fired := Some result1\<rparr>, w1))"

text \<open>The closure \<open>done\<close> of \<open>finishAfter\<close>, for the action \<open>self\<close>.\<close>

definition finishAfter_done :: "ref \<Rightarrow> 'r callback" where
  "finishAfter_done self result w =
     (let exception = (case result of Failure e \<Rightarrow> Some e | Result v \<Rightarrow> None);
          (r, w1) = finish self exception w
      in (case r of Some err \<Rightarrow> Inl err | None \<Rightarrow> Inr result, w1))"

definition finishAfter :: "ref \<Rightarrow> 'r deferred \<Rightarrow> world \<Rightarrow> 'r deferred \<times> world" where
  "finishAfter self d w = addBoth (finishAfter_done self) d w"

subsection \<open>Programs over the interface\<close>

text \<open>
  A caller's use of the module is a sequence of calls. The caller may catch what a call
  raises and go on, so a run continues after a raise, in the world the raising call left;
  what each call raised is kept, in order. A caller that stops at the first raise sees a
  prefix of such a run. \<open>Push\<close> and \<open>Pop\<close> are the two halves of \<open>run\<close> and of
  \<open>context\<close>, and \<open>Finish\<close> is also what the continuation of \<open>finishAfter\<close>
  does when it runs.
\<close>

datatype call =
    StartTask logger string "action_serializers option" fields string
  | StartAction tid logger string "action_serializers option" fields string
  | Child ref logger string "action_serializers option"
  | Start ref fields
  | Finish ref "pyexception option"
  | AddSuccessFields ref fields
  | Enter tid ref
  | Exit tid ref "pyexception option"
  | Push tid ref
  | Pop tid

fun step :: "call \<Rightarrow> world \<Rightarrow> error option \<times> world" where
  "step (StartTask lgr atype sers flds uuid4) w =
     (let (r, w1) = startTask lgr atype sers flds uuid4 w in (raised r, w1))"
| "step (StartAction t lgr atype sers flds uuid4) w =
     (let (r, w1) = startAction t lgr atype sers flds uuid4 w in (raised r, w1))"
| "step (Child self lgr atype sers) w = (None, snd (child self lgr atype sers w))"
| "step (Start self flds) w = Action_start self flds w"
| "step (Finish self exception) w = finish self exception w"
| "step (AddSuccessFields self flds) w = (None, addSuccessFields self flds w)"
| "step (Enter t self) w = (None, snd (enter t self w))"
| "step (Exit t self exception) w =
     (let (r, w1) = exit t self exception w in (raised r, w1))"
| "step (Push t self) w = (None, w\<lparr>the_context := push t self (the_context w)\<rparr>)"
| "step (Pop t) w =
     (case pop t (the_context w) of
        Inl err \<Rightarrow> (Some err, w)
      | Inr ctx \<Rightarrow> (None, w\<lparr>the_context := ctx\<rparr>))"

fun exec :: "call list \<Rightarrow> world \<Rightarrow> error option list \<times> world" where
  "exec [] w = ([], w)"
| "exec (c # cs) w =
     (let (r, w1) = step c w;
          (rs, w2) = exec cs w1
      in (r # rs, w2))"

text \<open>
  What can be seen of a world: everything but the success fields of finished actions.
  No call reads those: two worlds that look the same still look the same after any call,
  which raises in the one if it does in the other (\<open>step_observable\<close> below).
\<close>

definition observable :: "world \<Rightarrow> world" where
  "observable w =
     w\<lparr>heap := (\<lambda>r. if finished (heap w r)
                     then (heap w r)\<lparr>successFields := Map.empty\<rparr>
                     else heap w r)\<rparr>"

text \<open>\<open>finish\<close> called again and again, each time with its own argument.\<close>

fun finish_calls :: "ref \<Rightarrow> pyexception option list \<Rightarrow> world \<Rightarrow> world" where
  "finish_calls self [] w = w"
| "finish_calls self (e # es) w = finish_calls self es (snd (finish self e w))"

text \<open>\<open>child\<close> called again and again on one action; the children in order of creation.\<close>

fun children :: "ref \<Rightarrow> (logger \<times> string \<times> action_serializers option) list \<Rightarrow> world
    \<Rightarrow> ref list \<times> world" where
  "children self [] w = ([], w)"
| "children self ((lgr, atype, sers) # args) w =
     (let (c, w1) = child self lgr atype sers w;
          (cs, w2) = children self args w1
      in (c # cs, w2))"

text \<open>What the \<open>addSuccessFields\<close> calls in a program merge into the accumulator of one action.\<close>

fun accumulated :: "ref \<Rightarrow> call list \<Rightarrow> fields \<Rightarrow> fields" where
  "accumulated self [] m = m"
| "accumulated self (AddSuccessFields r flds # cs) m =
     accumulated self cs (if r = self then m ++ flds else m)"
| "accumulated self (c # cs) m = accumulated self cs m"

subsection \<open>Sample data\<close>

text \<open>The world when the module has just been imported, and an exception to fail with.\<close>

definition empty_world :: world where
  "empty_world =
     \<lparr>heap = (\<lambda>r. Action_init 0 [] [] [] None), next_ref = 0,
      the_context = ExecutionContext_init, deliveries = []\<rparr>"

definition boom :: pyexception where
  "boom = \<lparr>class_module = ''exceptions'', class_name = ''ValueError'', text_of = ''boom''\<rparr>"

text \<open>
  Serializers: one that adds a field naming itself, and one whose validation fails on
  every mapping.
\<close>

definition tagging :: "string \<Rightarrow> serializer" where
  "tagging name flds = Inr (flds (''serialized_by'' \<mapsto> PStr name))"

definition invalid :: pyexception where
  "invalid =
     \<lparr>class_module = ''eliot'', class_name = ''ValidationError'', text_of = ''invalid''\<rparr>"

definition refusing :: serializer where
  "refusing flds = Inl invalid"

text \<open>A world with one started task, action 0, that has serializers and a logger.\<close>

definition sample_world :: world where
  "sample_world =
     snd (startTask 7 ''t:a''
            (Some \<lparr>start = tagging ''start'', success = tagging ''success'',
                   failure = tagging ''failure''\<rparr>)
            Map.empty ''u1'' empty_world)"

text \<open>The same, with serializers that let the start message through and no finish message.\<close>

definition strict_world :: world where
  "strict_world =
     snd (startTask 7 ''t:a''
            (Some \<lparr>start = tagging ''start'', success = refusing, failure = refusing\<rparr>)
            Map.empty ''u1'' empty_world)"

text \<open>
  Bodies for a \<open>with\<close> statement on thread 0. Each raises \<open>boom\<close>: the first at once,
  the second after it has finished the action itself, the third after it has popped the
  stack.
\<close>

definition raising_body :: "ref \<Rightarrow> world \<Rightarrow> pyexception option \<times> world" where
  "raising_body a w = (Some boom, w)"

definition finishing_body :: "ref \<Rightarrow> world \<Rightarrow> pyexception option \<times> world" where
  "finishing_body a w = (Some boom, snd (finish a None w))"

definition popping_body :: "ref \<Rightarrow> world \<Rightarrow> pyexception option \<times> world" where
  "popping_body a w = (Some boom, snd (step (Pop 0) w))"

section \<open>Basic facts about the operations\<close>

lemma modify_simps [simp]:
  "heap (modify r f w) = (heap w) (r := f (heap w r))"
  "next_ref (modify r f w) = next_ref w"
  "the_context (modify r f w) = the_context w"
  "deliveries (modify r f w) = deliveries w"
  by (simp_all add: modify_def)

lemma Message_write_simps [simp]:
  "heap (snd (Message_write m lgr act w)) =
     (heap w) (act := (heap w act)\<lparr>numberOfMessages := Suc (numberOfMessages (heap w act))\<rparr>)"
  "next_ref (snd (Message_write m lgr act w)) = next_ref w"
  "the_context (snd (Message_write m lgr act w)) = the_context w"
  "deliveries (snd (Message_write m lgr act w)) =
     deliveries w @ [\<lparr>message = m, written_to = lgr, within = act,
                       action_counter = numberOfMessages (heap w act),
                       serialized = serialize (serializer m) (contents m)\<rparr>]"
  "fst (Message_write m lgr act w) =
     (case serialize (serializer m) (contents m) of Inl e \<Rightarrow> Some (Raised e) | Inr x \<Rightarrow> None)"
  by (simp_all add: Message_write_def incrementMessageCounter_def Let_def)

lemma new_action_simps [simp]:
  "fst (new_action a w) = next_ref w"
  "heap (snd (new_action a w)) = (heap w) (next_ref w := a)"
  "next_ref (snd (new_action a w)) = Suc (next_ref w)"
  "the_context (snd (new_action a w)) = the_context w"
  "deliveries (snd (new_action a w)) = deliveries w"
  by (simp_all add: new_action_def)

lemma finish_finished: "finished (heap w self) \<Longrightarrow> finish self e w = (None, w)"
  by (simp add: finish_def)

lemma finish_sets_finished: "finished (heap (snd (finish self e w)) self)"
  by (simp add: finish_def Let_def split: option.splits)

lemma finish_next_ref [simp]: "next_ref (snd (finish self e w)) = next_ref w"
  by (simp add: finish_def Let_def split: option.splits)

lemma finish_context [simp]: "the_context (snd (finish self e w)) = the_context w"
  by (simp add: finish_def Let_def split: option.splits)

lemma finish_keeps_finished:
  "finished (heap w r) \<Longrightarrow> finished (heap (snd (finish self e w)) r)"
  by (simp add: finish_def Let_def split: option.splits)

lemma Action_start_simps [simp]:
  "next_ref (snd (Action_start self flds w)) = next_ref w"
  "the_context (snd (Action_start self flds w)) = the_context w"
  "heap (snd (Action_start self flds w)) =
     (heap w) (self := (heap w self)\<lparr>numberOfMessages := Suc (numberOfMessages (heap w self))\<rparr>)"
  by (simp_all add: Action_start_def Let_def)

lemma child_simps [simp]:
  "fst (child self lgr atype sers w) = next_ref w"
  "next_ref (snd (child self lgr atype sers w)) = Suc (next_ref w)"
  "the_context (snd (child self lgr atype sers w)) = the_context w"
  "deliveries (snd (child self lgr atype sers w)) = deliveries w"
  by (simp_all add: child_def Let_def)

lemma heap_child:
  "heap (snd (child self lgr atype sers w)) =
     ((heap w) (self := (heap w self)\<lparr>numberOfChildren := Suc (numberOfChildren (heap w self))\<rparr>))
       (next_ref w :=
          Action_init lgr (task_uuid (identification (heap w self)))
            (task_level (identification (heap w self)) @
               unicode_nat (Suc (numberOfChildren (heap w self))) @ ''/'')
            atype sers)"
  by (simp add: child_def Let_def)

lemma startTask_simps [simp]:
  "next_ref (snd (startTask lgr atype sers flds uuid4 w)) = Suc (next_ref w)"
  "the_context (snd (startTask lgr atype sers flds uuid4 w)) = the_context w"
  by (simp_all add: startTask_def split_beta)

lemma heap_startTask:
  "heap (snd (startTask lgr atype sers flds uuid4 w)) =
     (heap w) (next_ref w := (Action_init lgr uuid4 ''/'' atype sers)\<lparr>numberOfMessages := 1\<rparr>)"
  by (simp add: startTask_def split_beta Action_init_def)

lemma startAction_simps [simp]:
  "next_ref (snd (startAction t lgr atype sers flds uuid4 w)) = Suc (next_ref w)"
  "the_context (snd (startAction t lgr atype sers flds uuid4 w)) = the_context w"
  by (simp_all add: startAction_def split_beta split: option.splits)

lemma fst_Action_start:
  "fst (Action_start self flds w) =
     (case serialize (map_option start (serializers (heap w self)))
        (flds (''action_status'' \<mapsto> PStr ''started'') ++
           identification_fields (identification (heap w self))) of
        Inl e \<Rightarrow> Some (Raised e) | Inr x \<Rightarrow> None)"
  by (simp add: Action_start_def Let_def split: option.splits)

lemma snd_startTask:
  "snd (startTask lgr atype sers flds uuid4 w) =
     snd (Action_start (next_ref w) flds
            (snd (new_action (Action_init lgr uuid4 ''/'' atype sers) w)))"
  by (simp add: startTask_def split_beta)

lemma fst_startTask:
  "fst (startTask lgr atype sers flds uuid4 w) =
     (case serialize (map_option start sers)
        (flds (''action_status'' \<mapsto> PStr ''started'') ++
           identification_fields \<lparr>task_uuid = uuid4, task_level = ''/'', action_type = atype\<rparr>) of
        Inl e \<Rightarrow> Inl (Raised e) | Inr x \<Rightarrow> Inr (next_ref w))"
  by (simp add: startTask_def split_beta fst_Action_start Action_init_def split: sum.splits)

lemma snd_startAction:
  "snd (startAction t lgr atype sers flds uuid4 w) =
     (case current t (the_context w) of
        None \<Rightarrow> snd (startTask lgr atype sers flds uuid4 w)
      | Some parent \<Rightarrow>
          snd (Action_start (next_ref w) flds (snd (child parent lgr atype sers w))))"
  by (simp add: startAction_def split_beta split: option.splits)

lemma fst_startAction:
  "fst (startAction t lgr atype sers flds uuid4 w) =
     (case current t (the_context w) of
        None \<Rightarrow> fst (startTask lgr atype sers flds uuid4 w)
      | Some parent \<Rightarrow>
          (case serialize (map_option start sers)
             (flds (''action_status'' \<mapsto> PStr ''started'') ++
                identification_fields
                  \<lparr>task_uuid = task_uuid (identification (heap w parent)),
                   task_level = task_level (identification (heap w parent)) @
                     unicode_nat (Suc (numberOfChildren (heap w parent))) @ ''/'',
                   action_type = atype\<rparr>) of
             Inl e \<Rightarrow> Inl (Raised e) | Inr x \<Rightarrow> Inr (next_ref w)))"
  by (simp add: startAction_def split_beta fst_Action_start heap_child Action_init_def
      split: option.splits sum.splits)

lemma exit_simps [simp]:
  "next_ref (snd (exit t self e w)) = next_ref w"
  by (simp add: exit_def split_beta split: sum.splits)

lemma exec_Cons [simp]:
  "snd (exec (c # cs) w) = snd (exec cs (snd (step c w)))"
  "fst (exec (c # cs) w) = fst (step c w) # fst (exec cs (snd (step c w)))"
  by (simp_all add: split_beta)

declare exec.simps(2) [simp del]

lemma step_next_ref: "next_ref w \<le> next_ref (snd (step c w))"
  by (cases c) (auto simp: addSuccessFields_def enter_def split_beta split: sum.splits)

lemma step_finished:
  "r < next_ref w \<Longrightarrow> finished (heap w r) \<Longrightarrow> finished (heap (snd (step c w)) r)"
  by (cases c)
    (auto simp: addSuccessFields_def enter_def exit_def finish_keeps_finished heap_child
       heap_startTask startAction_def split_beta split: sum.splits option.splits)

lemma exec_finished:
  "r < next_ref w \<Longrightarrow> finished (heap w r) \<Longrightarrow>
     finished (heap (snd (exec cs w)) r) \<and> r < next_ref (snd (exec cs w))"
proof (induction cs arbitrary: w)
  case Nil
  then show ?case by simp
next
  case (Cons c cs)
  from Cons.prems have "finished (heap (snd (step c w)) r)" "r < next_ref (snd (step c w))"
    using step_finished step_next_ref [of w c] by (blast, fastforce)
  with Cons.IH [of "snd (step c w)"] show ?case by simp
qed

lemma deliveries_Action_start:
  "deliveries (snd (Action_start self flds w)) =
     deliveries w @
       [\<lparr>message =
           \<lparr>contents = flds (''action_status'' \<mapsto> PStr ''started'') ++
                         identification_fields (identification (heap w self)),
            serializer = map_option start (serializers (heap w self))\<rparr>,
         written_to = logger_of (heap w self), within = self,
         action_counter = numberOfMessages (heap w self),
         serialized = serialize (map_option start (serializers (heap w self)))
           (flds (''action_status'' \<mapsto> PStr ''started'') ++
              identification_fields (identification (heap w self)))\<rparr>]"
  by (simp add: Action_start_def Let_def split: option.splits)

lemma deliveries_finish_success:
  "\<not> finished (heap w self) \<Longrightarrow>
   deliveries (snd (finish self None w)) =
     deliveries w @
       [\<lparr>message =
           \<lparr>contents = (successFields (heap w self)) (''action_status'' \<mapsto> PStr ''succeeded'') ++
                         identification_fields (identification (heap w self)),
            serializer = map_option success (serializers (heap w self))\<rparr>,
         written_to = logger_of (heap w self), within = self,
         action_counter = numberOfMessages (heap w self),
         serialized = serialize (map_option success (serializers (heap w self)))
           ((successFields (heap w self)) (''action_status'' \<mapsto> PStr ''succeeded'') ++
              identification_fields (identification (heap w self)))\<rparr>]"
  by (simp add: finish_def Let_def split: option.splits)

lemma deliveries_finish_failure:
  "\<not> finished (heap w self) \<Longrightarrow>
   deliveries (snd (finish self (Some e) w)) =
     deliveries w @
       [\<lparr>message =
           \<lparr>contents = [''exception'' \<mapsto> PStr (class_module e @ ''.'' @ class_name e),
                         ''reason'' \<mapsto> PStr (safeunicode e),
                         ''action_status'' \<mapsto> PStr ''failed''] ++
                         identification_fields (identification (heap w self)),
            serializer = map_option failure (serializers (heap w self))\<rparr>,
         written_to = logger_of (heap w self), within = self,
         action_counter = numberOfMessages (heap w self),
         serialized = serialize (map_option failure (serializers (heap w self)))
           ([''exception'' \<mapsto> PStr (class_module e @ ''.'' @ class_name e),
             ''reason'' \<mapsto> PStr (safeunicode e),
             ''action_status'' \<mapsto> PStr ''failed''] ++
              identification_fields (identification (heap w self)))\<rparr>]"
  by (simp add: finish_def Let_def split: option.splits)

lemma finish_calls_finished: "finished (heap w self) \<Longrightarrow> finish_calls self es w = w"
  by (induction es) (simp_all add: finish_finished)

lemma finish_identification [simp]:
  "identification (heap (snd (finish self e w)) r) = identification (heap w r)"
  by (simp add: finish_def Let_def split: option.splits)

lemma finish_numberOfChildren [simp]:
  "numberOfChildren (heap (snd (finish self e w)) r) = numberOfChildren (heap w r)"
  by (simp add: finish_def Let_def split: option.splits)

lemma finish_unfinished_successFields:
  "\<not> finished (heap (snd (finish self e w)) r) \<Longrightarrow>
     successFields (heap (snd (finish self e w)) r) = successFields (heap w r)"
  by (auto simp: finish_def Let_def split: option.splits if_splits)

lemma finish_serializers [simp]:
  "serializers (heap (snd (finish self e w)) r) = serializers (heap w r)"
  by (simp add: finish_def Let_def split: option.splits)

lemma finish_logger_of [simp]:
  "logger_of (heap (snd (finish self e w)) r) = logger_of (heap w r)"
  by (simp add: finish_def Let_def split: option.splits)

lemma step_identification:
  "r < next_ref w \<Longrightarrow>
     identification (heap (snd (step c w)) r) = identification (heap w r) \<and>
     serializers (heap (snd (step c w)) r) = serializers (heap w r) \<and>
     logger_of (heap (snd (step c w)) r) = logger_of (heap w r)"
  by (cases c)
    (auto simp: addSuccessFields_def enter_def exit_def heap_child
       heap_startTask startAction_def split_beta split: sum.splits option.splits)

lemma exec_identification:
  "r < next_ref w \<Longrightarrow>
     identification (heap (snd (exec cs w)) r) = identification (heap w r) \<and>
     serializers (heap (snd (exec cs w)) r) = serializers (heap w r) \<and>
     logger_of (heap (snd (exec cs w)) r) = logger_of (heap w r)"
proof (induction cs arbitrary: w)
  case Nil
  then show ?case by simp
next
  case (Cons c cs)
  from Cons.prems have "r < next_ref (snd (step c w))"
    using step_next_ref [of w c] by simp
  with Cons.IH [of "snd (step c w)"] step_identification [OF Cons.prems, of c] show ?case
    by (simp add: split_beta)
qed

lemma step_successFields:
  "r < next_ref w \<Longrightarrow> \<not> finished (heap (snd (step c w)) r) \<Longrightarrow>
     successFields (heap (snd (step c w)) r) = accumulated r [c] (successFields (heap w r))"
  by (cases c)
    (auto simp: addSuccessFields_def enter_def exit_def heap_child finish_unfinished_successFields
       heap_startTask startAction_def split_beta split: sum.splits option.splits)

lemma accumulated_Cons:
  "accumulated r (c # cs) m = accumulated r cs (accumulated r [c] m)"
  by (cases c) simp_all

lemma exec_unfinished:
  "r < next_ref w \<Longrightarrow> \<not> finished (heap (snd (exec cs w)) r) \<Longrightarrow> \<not> finished (heap w r)"
  using exec_finished by blast

lemma exec_successFields:
  "r < next_ref w \<Longrightarrow> \<not> finished (heap (snd (exec cs w)) r) \<Longrightarrow>
     successFields (heap (snd (exec cs w)) r) = accumulated r cs (successFields (heap w r))"
proof (induction cs arbitrary: w)
  case Nil
  then show ?case by simp
next
  case (Cons c cs)
  let ?w1 = "snd (step c w)"
  have e: "snd (exec (c # cs) w) = snd (exec cs ?w1)"
    by simp
  from Cons.prems(1) have r1: "r < next_ref ?w1"
    using step_next_ref [of w c] by simp
  from Cons.prems(2) have u: "\<not> finished (heap (snd (exec cs ?w1)) r)"
    by simp
  from exec_unfinished [OF r1 u] have u1: "\<not> finished (heap ?w1 r)" .
  have "successFields (heap (snd (exec cs ?w1)) r) = accumulated r cs (successFields (heap ?w1 r))"
    by (rule Cons.IH [OF r1 u])
  also have "successFields (heap ?w1 r) = accumulated r [c] (successFields (heap w r))"
    by (rule step_successFields [OF Cons.prems(1) u1])
  finally show ?case by (simp add: accumulated_Cons [of r c cs])
qed

lemma deliveries_startTask:
  "deliveries (snd (startTask lgr atype sers flds uuid4 w)) =
     deliveries w @
       [\<lparr>message =
           \<lparr>contents = flds (''action_status'' \<mapsto> PStr ''started'') ++
              identification_fields \<lparr>task_uuid = uuid4, task_level = ''/'', action_type = atype\<rparr>,
            serializer = map_option start sers\<rparr>,
         written_to = lgr, within = next_ref w, action_counter = 0,
         serialized = serialize (map_option start sers)
           (flds (''action_status'' \<mapsto> PStr ''started'') ++
              identification_fields
                \<lparr>task_uuid = uuid4, task_level = ''/'', action_type = atype\<rparr>)\<rparr>]"
  by (simp add: startTask_def split_beta deliveries_Action_start Action_init_def)

lemma sample_world_simps:
  "heap sample_world 0 =
     (Action_init 7 ''u1'' ''/'' ''t:a''
        (Some \<lparr>start = tagging ''start'', success = tagging ''success'',
               failure = tagging ''failure''\<rparr>))
       \<lparr>numberOfMessages := 1\<rparr>"
  "next_ref sample_world = 1"
  "the_context sample_world = ExecutionContext_init"
  "length (deliveries sample_world) = 1"
  by (simp_all add: sample_world_def heap_startTask deliveries_startTask empty_world_def)

lemma strict_world_simps:
  "heap strict_world 0 =
     (Action_init 7 ''u1'' ''/'' ''t:a''
        (Some \<lparr>start = tagging ''start'', success = refusing, failure = refusing\<rparr>))
       \<lparr>numberOfMessages := 1\<rparr>"
  "next_ref strict_world = 1"
  "the_context strict_world = ExecutionContext_init"
  "length (deliveries strict_world) = 1"
  by (simp_all add: strict_world_def heap_startTask deliveries_startTask empty_world_def)

subsection \<open>What the success fields of a finished action can influence\<close>

lemma observable_eq_iff:
  "observable w = observable v \<longleftrightarrow>
     next_ref w = next_ref v \<and> the_context w = the_context v \<and> deliveries w = deliveries v \<and>
     (\<forall>r. finished (heap w r) = finished (heap v r) \<and>
          (heap w r)\<lparr>successFields := Map.empty\<rparr> = (heap v r)\<lparr>successFields := Map.empty\<rparr> \<and>
          (\<not> finished (heap w r) \<longrightarrow> heap w r = heap v r))"
proof -
  have "observable w = observable v \<longleftrightarrow>
     next_ref w = next_ref v \<and> the_context w = the_context v \<and> deliveries w = deliveries v \<and>
     (\<forall>r. (if finished (heap w r) then (heap w r)\<lparr>successFields := Map.empty\<rparr> else heap w r) =
          (if finished (heap v r) then (heap v r)\<lparr>successFields := Map.empty\<rparr> else heap v r))"
    by (cases w; cases v) (auto simp: observable_def fun_eq_iff)
  also have "\<dots> \<longleftrightarrow>
     next_ref w = next_ref v \<and> the_context w = the_context v \<and> deliveries w = deliveries v \<and>
     (\<forall>r. finished (heap w r) = finished (heap v r) \<and>
          (heap w r)\<lparr>successFields := Map.empty\<rparr> = (heap v r)\<lparr>successFields := Map.empty\<rparr> \<and>
          (\<not> finished (heap w r) \<longrightarrow> heap w r = heap v r))"
  proof -
    have one: "((if finished a then a\<lparr>successFields := Map.empty\<rparr> else a) =
          (if finished b then b\<lparr>successFields := Map.empty\<rparr> else b)) \<longleftrightarrow>
        (finished a = finished b \<and>
          a\<lparr>successFields := Map.empty\<rparr> = b\<lparr>successFields := Map.empty\<rparr> \<and>
          (\<not> finished a \<longrightarrow> a = b))" for a b :: action
      by (cases a; cases b) auto
    show ?thesis by (simp only: one)
  qed
  finally show ?thesis .
qed


lemma erased_eq_iff:
  "a\<lparr>successFields := Map.empty\<rparr> = b\<lparr>successFields := Map.empty\<rparr> \<longleftrightarrow>
     numberOfChildren a = numberOfChildren b \<and> numberOfMessages a = numberOfMessages b \<and>
     logger_of a = logger_of b \<and> identification a = identification b \<and>
     serializers a = serializers b \<and> finished a = finished b"
  for a b :: action
  by (cases a; cases b) auto

lemma action_eq_iff:
  "a = b \<longleftrightarrow>
     numberOfChildren a = numberOfChildren b \<and> numberOfMessages a = numberOfMessages b \<and>
     successFields a = successFields b \<and>
     logger_of a = logger_of b \<and> identification a = identification b \<and>
     serializers a = serializers b \<and> finished a = finished b"
  for a b :: action
  by (cases a; cases b) auto

lemma heap_finish:
  "heap (snd (finish self e w)) =
     (if finished (heap w self) then heap w
      else (heap w) (self := (heap w self)
        \<lparr>finished := True,
         successFields :=
           (case e of
              None \<Rightarrow> (successFields (heap w self)) (''action_status'' \<mapsto> PStr ''succeeded'') ++
                        identification_fields (identification (heap w self))
            | Some x \<Rightarrow> successFields (heap w self)),
         numberOfMessages := Suc (numberOfMessages (heap w self))\<rparr>))"
  by (auto simp: finish_def Let_def action_eq_iff fun_eq_iff split: option.splits)

lemma observableI:
  assumes "next_ref w = next_ref v" and "the_context w = the_context v"
    and "deliveries w = deliveries v"
    and "\<And>r. finished (heap w r) = finished (heap v r)"
    and "\<And>r. (heap w r)\<lparr>successFields := Map.empty\<rparr> = (heap v r)\<lparr>successFields := Map.empty\<rparr>"
    and "\<And>r. \<not> finished (heap w r) \<Longrightarrow> heap w r = heap v r"
  shows "observable w = observable v"
  unfolding observable_eq_iff using assms by blast

lemma observableD:
  assumes "observable w = observable v"
  shows "next_ref w = next_ref v" and "the_context w = the_context v"
    and "deliveries w = deliveries v"
    and "finished (heap w r) = finished (heap v r)"
    and "(heap w r)\<lparr>successFields := Map.empty\<rparr> = (heap v r)\<lparr>successFields := Map.empty\<rparr>"
    and "\<not> finished (heap w r) \<Longrightarrow> heap w r = heap v r"
proof -
  from assms have *:
    "next_ref w = next_ref v \<and> the_context w = the_context v \<and> deliveries w = deliveries v \<and>
     (\<forall>r. finished (heap w r) = finished (heap v r) \<and>
          (heap w r)\<lparr>successFields := Map.empty\<rparr> = (heap v r)\<lparr>successFields := Map.empty\<rparr> \<and>
          (\<not> finished (heap w r) \<longrightarrow> heap w r = heap v r))"
    unfolding observable_eq_iff .
  from * show "next_ref w = next_ref v" by blast
  from * show "the_context w = the_context v" by blast
  from * show "deliveries w = deliveries v" by blast
  from * show "finished (heap w r) = finished (heap v r)" by blast
  from * show "(heap w r)\<lparr>successFields := Map.empty\<rparr> = (heap v r)\<lparr>successFields := Map.empty\<rparr>"
    by blast
  from * show "heap w r = heap v r" if "\<not> finished (heap w r)"
    using that by blast
qed

lemma observable_attrs:
  assumes "observable w = observable v"
  shows "numberOfChildren (heap w r) = numberOfChildren (heap v r)"
    and "numberOfMessages (heap w r) = numberOfMessages (heap v r)"
    and "logger_of (heap w r) = logger_of (heap v r)"
    and "identification (heap w r) = identification (heap v r)"
    and "serializers (heap w r) = serializers (heap v r)"
  using observableD(5) [OF assms, of r] by (simp_all add: erased_eq_iff)

lemma fst_finish:
  "fst (finish self e w) =
     (if finished (heap w self) then None
      else case serialize
          (case e of None \<Rightarrow> map_option success (serializers (heap w self))
                   | Some x \<Rightarrow> map_option failure (serializers (heap w self)))
          ((case e of
              None \<Rightarrow> (successFields (heap w self)) (''action_status'' \<mapsto> PStr ''succeeded'')
            | Some x \<Rightarrow>
                [''exception'' \<mapsto> PStr (class_module x @ ''.'' @ class_name x),
                 ''reason'' \<mapsto> PStr (safeunicode x),
                 ''action_status'' \<mapsto> PStr ''failed'']) ++
             identification_fields (identification (heap w self))) of
        Inl x \<Rightarrow> Some (Raised x) | Inr y \<Rightarrow> None)"
  by (simp add: finish_def Let_def split: option.splits)

lemma finish_observable:
  assumes "observable w = observable v"
  shows "fst (finish self e w) = fst (finish self e v) \<and>
    observable (snd (finish self e w)) = observable (snd (finish self e v))"
proof (cases "finished (heap w self)")
  case True
  with observableD(4) [OF assms, of self] have "finished (heap v self)" by simp
  with True assms show ?thesis by (simp add: finish_finished)
next
  case False
  with observableD(4) [OF assms, of self] have v: "\<not> finished (heap v self)" by simp
  from observableD(6) [OF assms False] have eq: "heap w self = heap v self" .
  have raise: "fst (finish self e w) = fst (finish self e v)"
    using False v eq by (cases e) (simp_all add: fst_finish)
  have "observable (snd (finish self e w)) = observable (snd (finish self e v))"
  proof (rule observableI)
    show "deliveries (snd (finish self e w)) = deliveries (snd (finish self e v))"
      using False v eq observableD(3) [OF assms]
      by (cases e) (simp_all add: deliveries_finish_success deliveries_finish_failure)
    show "finished (heap (snd (finish self e w)) r) = finished (heap (snd (finish self e v)) r)"
      for r
      using False v eq observableD(4) [OF assms, of r] by (simp add: heap_finish)
    show "(heap (snd (finish self e w)) r)\<lparr>successFields := Map.empty\<rparr> =
        (heap (snd (finish self e v)) r)\<lparr>successFields := Map.empty\<rparr>" for r
      using False v eq observableD(5) [OF assms, of r] by (simp add: heap_finish)
    show "heap (snd (finish self e w)) r = heap (snd (finish self e v)) r"
      if "\<not> finished (heap (snd (finish self e w)) r)" for r
    proof (cases "r = self")
      case True
      with that show ?thesis by (simp add: finish_sets_finished)
    next
      case neq: False
      with that False have "\<not> finished (heap w r)" by (simp add: heap_finish)
      from observableD(6) [OF assms this] neq False v show ?thesis by (simp add: heap_finish)
    qed
  qed (simp_all add: observableD(1,2) [OF assms])
  with raise show ?thesis by simp
qed

lemma modify_observable:
  assumes "observable w = observable v"
    and "\<And>a b. finished a = finished b \<Longrightarrow>
           a\<lparr>successFields := Map.empty\<rparr> = b\<lparr>successFields := Map.empty\<rparr> \<Longrightarrow>
           finished (f a) = finished a \<and>
           (f a)\<lparr>successFields := Map.empty\<rparr> = (f b)\<lparr>successFields := Map.empty\<rparr>"
    and "\<And>a. \<not> finished a \<Longrightarrow> \<not> finished (f a)"
  shows "observable (modify r f w) = observable (modify r f v)"
proof (rule observableI)
  have fin: "finished (f (heap w r)) = finished (heap w r)"
    using assms(2) [of "heap w r" "heap w r"] by simp
  have fin': "finished (f (heap v r)) = finished (heap v r)"
    using assms(2) [of "heap v r" "heap v r"] by simp
  show "finished (heap (modify r f w) r') = finished (heap (modify r f v) r')" for r'
    using observableD(4) [OF assms(1), of r'] fin fin' by auto
  show "(heap (modify r f w) r')\<lparr>successFields := Map.empty\<rparr> =
      (heap (modify r f v) r')\<lparr>successFields := Map.empty\<rparr>" for r'
    using observableD(4,5) [OF assms(1), of r']
      assms(2) [OF observableD(4) [OF assms(1), of r] observableD(5) [OF assms(1), of r]]
    by auto
  show "heap (modify r f w) r' = heap (modify r f v) r'"
    if "\<not> finished (heap (modify r f w) r')" for r'
  proof -
    from that fin have "\<not> finished (heap w r')" by (simp split: if_splits)
    from observableD(6) [OF assms(1) this] show ?thesis by auto
  qed
qed (simp_all add: observableD(1,2,3) [OF assms(1)])

lemma Message_write_observable:
  assumes "observable w = observable v"
  shows "observable (snd (Message_write m lgr act w)) =
    observable (snd (Message_write m lgr act v))"
proof (rule observableI)
  show "deliveries (snd (Message_write m lgr act w)) = deliveries (snd (Message_write m lgr act v))"
    using observableD(3) [OF assms] observable_attrs(2) [OF assms, of act] by simp
  show "finished (heap (snd (Message_write m lgr act w)) r) =
      finished (heap (snd (Message_write m lgr act v)) r)" for r
    using observableD(4) [OF assms, of r] by auto
  show "(heap (snd (Message_write m lgr act w)) r)\<lparr>successFields := Map.empty\<rparr> =
      (heap (snd (Message_write m lgr act v)) r)\<lparr>successFields := Map.empty\<rparr>" for r
    using observableD(5) [OF assms, of r] by (auto simp: erased_eq_iff)
  show "heap (snd (Message_write m lgr act w)) r = heap (snd (Message_write m lgr act v)) r"
    if "\<not> finished (heap (snd (Message_write m lgr act w)) r)" for r
  proof -
    from that have "\<not> finished (heap w r)" by (simp split: if_splits)
    from observableD(6) [OF assms this] show ?thesis by auto
  qed
qed (simp_all add: observableD(1,2) [OF assms])

lemma new_action_observable:
  assumes "observable w = observable v"
  shows "observable (snd (new_action a w)) = observable (snd (new_action a v))"
proof (rule observableI)
  show "finished (heap (snd (new_action a w)) r) = finished (heap (snd (new_action a v)) r)" for r
    using observableD(4) [OF assms, of r] observableD(1) [OF assms] by simp
  show "(heap (snd (new_action a w)) r)\<lparr>successFields := Map.empty\<rparr> =
      (heap (snd (new_action a v)) r)\<lparr>successFields := Map.empty\<rparr>" for r
    using observableD(5) [OF assms, of r] observableD(1) [OF assms] by simp
  show "heap (snd (new_action a w)) r = heap (snd (new_action a v)) r"
    if "\<not> finished (heap (snd (new_action a w)) r)" for r
  proof (cases "r = next_ref w")
    case True
    then show ?thesis using observableD(1) [OF assms] by simp
  next
    case False
    with that have "\<not> finished (heap w r)" by simp
    from observableD(6) [OF assms this] False observableD(1) [OF assms] show ?thesis by simp
  qed
qed (simp_all add: observableD(1,2,3) [OF assms])

lemma context_observable:
  assumes "observable w = observable v"
  shows "observable (w\<lparr>the_context := c\<rparr>) = observable (v\<lparr>the_context := c\<rparr>)"
proof (rule observableI)
  show "finished (heap (w\<lparr>the_context := c\<rparr>) r) = finished (heap (v\<lparr>the_context := c\<rparr>) r)" for r
    using observableD(4) [OF assms, of r] by simp
  show "(heap (w\<lparr>the_context := c\<rparr>) r)\<lparr>successFields := Map.empty\<rparr> =
      (heap (v\<lparr>the_context := c\<rparr>) r)\<lparr>successFields := Map.empty\<rparr>" for r
    using observableD(5) [OF assms, of r] by simp
  show "heap (w\<lparr>the_context := c\<rparr>) r = heap (v\<lparr>the_context := c\<rparr>) r"
    if "\<not> finished (heap (w\<lparr>the_context := c\<rparr>) r)" for r
    using observableD(6) [OF assms, of r] that by simp
qed (simp_all add: observableD(1,3) [OF assms])

lemma Action_start_observable:
  assumes "observable w = observable v"
  shows "fst (Action_start self flds w) = fst (Action_start self flds v) \<and>
    observable (snd (Action_start self flds w)) = observable (snd (Action_start self flds v))"
  using observable_attrs [OF assms, of self] Message_write_observable [OF assms]
  by (simp add: Action_start_def Let_def)

lemma addSuccessFields_observable:
  assumes "observable w = observable v"
  shows "observable (addSuccessFields self flds w) = observable (addSuccessFields self flds v)"
  unfolding addSuccessFields_def
  by (rule modify_observable [OF assms]) (simp_all add: erased_eq_iff)

lemma child_observable:
  assumes "observable w = observable v"
  shows "observable (snd (child self lgr atype sers w)) = observable (snd (child self lgr atype sers v))"
proof -
  have m: "observable (modify self (\<lambda>a. a\<lparr>numberOfChildren := numberOfChildren a + 1\<rparr>) w) =
      observable (modify self (\<lambda>a. a\<lparr>numberOfChildren := numberOfChildren a + 1\<rparr>) v)"
    by (rule modify_observable [OF assms]) (simp_all add: erased_eq_iff)
  show ?thesis
    using observable_attrs [OF assms, of self] new_action_observable [OF m]
    by (simp add: child_def Let_def)
qed

lemma startTask_observable:
  assumes "observable w = observable v"
  shows "fst (startTask lgr atype sers flds uuid4 w) = fst (startTask lgr atype sers flds uuid4 v) \<and>
    observable (snd (startTask lgr atype sers flds uuid4 w)) =
      observable (snd (startTask lgr atype sers flds uuid4 v))"
  using Action_start_observable [OF new_action_observable [OF assms]] observableD(1) [OF assms]
  by (simp add: snd_startTask fst_startTask split: sum.splits)

lemma startAction_observable:
  assumes "observable w = observable v"
  shows "fst (startAction t lgr atype sers flds uuid4 w) =
      fst (startAction t lgr atype sers flds uuid4 v) \<and>
    observable (snd (startAction t lgr atype sers flds uuid4 w)) =
      observable (snd (startAction t lgr atype sers flds uuid4 v))"
proof (cases "current t (the_context w)")
  case None
  with startTask_observable [OF assms] observableD(2) [OF assms] show ?thesis
    by (simp add: snd_startAction fst_startAction split: sum.splits)
next
  case (Some parent)
  with Action_start_observable [OF child_observable [OF assms]] observableD(1,2) [OF assms]
    observable_attrs [OF assms, of parent]
  show ?thesis
    by (simp add: snd_startAction fst_startAction split: sum.splits)
qed

lemma exit_observable:
  assumes "observable w = observable v"
  shows "fst (exit t self e w) = fst (exit t self e v) \<and>
    observable (snd (exit t self e w)) = observable (snd (exit t self e v))"
proof (cases "pop t (the_context w)")
  case (Inl err)
  with observableD(2) [OF assms] assms show ?thesis by (simp add: exit_def)
next
  case (Inr ctx)
  with observableD(2) [OF assms] finish_observable [OF context_observable [OF assms]]
  show ?thesis by (simp add: exit_def split_beta)
qed

lemma step_observable:
  assumes "observable w = observable v"
  shows "fst (step c w) = fst (step c v) \<and>
    observable (snd (step c w)) = observable (snd (step c v))"
proof (cases c)
  case (StartTask lgr atype sers flds uuid4)
  then show ?thesis using startTask_observable [OF assms] by (simp add: split_beta)
next
  case (StartAction t lgr atype sers flds uuid4)
  then show ?thesis using startAction_observable [OF assms] by (simp add: split_beta)
next
  case (Child self lgr atype sers)
  then show ?thesis using child_observable [OF assms] by simp
next
  case (Start self flds)
  then show ?thesis using Action_start_observable [OF assms] by simp
next
  case (Finish self exception)
  then show ?thesis using finish_observable [OF assms] by simp
next
  case (AddSuccessFields self flds)
  then show ?thesis using addSuccessFields_observable [OF assms] by simp
next
  case (Enter t self)
  then show ?thesis
    using context_observable [OF assms] observableD(2) [OF assms] by (simp add: enter_def)
next
  case (Exit t self exception)
  then show ?thesis using exit_observable [OF assms] by (simp add: split_beta)
next
  case (Push t self)
  then show ?thesis
    using context_observable [OF assms] observableD(2) [OF assms] by simp
next
  case (Pop t)
  then show ?thesis
    using observableD(2) [OF assms] context_observable [OF assms] assms
    by (simp split: sum.splits)
qed

lemma exec_observable:
  "observable w = observable v \<Longrightarrow>
     fst (exec cs w) = fst (exec cs v) \<and>
     observable (snd (exec cs w)) = observable (snd (exec cs v))"
proof (induction cs arbitrary: w v)
  case Nil
  then show ?case by simp
next
  case (Cons c cs)
  from step_observable [OF Cons.prems, of c]
  have s: "fst (step c w) = fst (step c v)"
    "observable (snd (step c w)) = observable (snd (step c v))"
    by simp_all
  from Cons.IH [OF s(2)] s(1) show ?case by simp
qed

lemma addSuccessFields_simps [simp]:
  "next_ref (addSuccessFields self flds w) = next_ref w"
  "the_context (addSuccessFields self flds w) = the_context w"
  "deliveries (addSuccessFields self flds w) = deliveries w"
  "heap (addSuccessFields self flds w) =
     (heap w) (self := (heap w self)\<lparr>successFields := successFields (heap w self) ++ flds\<rparr>)"
  by (simp_all add: addSuccessFields_def)

lemma addSuccessFields_finished_observable:
  assumes "finished (heap w self)"
  shows "observable (addSuccessFields self flds w) = observable w"
proof (rule observableI)
  show "finished (heap (addSuccessFields self flds w) r) = finished (heap w r)" for r
    by simp
  show "(heap (addSuccessFields self flds w) r)\<lparr>successFields := Map.empty\<rparr> =
      (heap w r)\<lparr>successFields := Map.empty\<rparr>" for r
    by simp
  show "heap (addSuccessFields self flds w) r = heap w r"
    if "\<not> finished (heap (addSuccessFields self flds w) r)" for r
    using that assms by (cases "r = self") simp_all
qed simp_all

lemma observable_deliveries:
  "observable w = observable v \<Longrightarrow> deliveries w = deliveries v"
  by (rule observableD(3))

subsection \<open>Children created one after another\<close>

lemma children_props:
  "self < next_ref w \<Longrightarrow> children self args w = (cs, w') \<Longrightarrow>
     length cs = length args \<and>
     next_ref w' = next_ref w + length args \<and>
     the_context w' = the_context w \<and>
     deliveries w' = deliveries w \<and>
     heap w' self =
       (heap w self)\<lparr>numberOfChildren := numberOfChildren (heap w self) + length args\<rparr> \<and>
     (\<forall>i<length args.
        cs ! i = next_ref w + i \<and>
        heap w' (next_ref w + i) =
          Action_init (fst (args ! i)) (task_uuid (identification (heap w self)))
            (task_level (identification (heap w self)) @
               unicode_nat (numberOfChildren (heap w self) + Suc i) @ ''/'')
            (fst (snd (args ! i))) (snd (snd (args ! i)))) \<and>
     (\<forall>r. r < next_ref w \<and> r \<noteq> self \<longrightarrow> heap w' r = heap w r)"
proof (induction args arbitrary: w cs w')
  case Nil
  then show ?case by auto
next
  case (Cons a args)
  obtain lgr atype sers where a: "a = (lgr, atype, sers)"
    by (cases a) auto
  let ?w1 = "snd (child self lgr atype sers w)"
  obtain cs1 w2 where rest: "children self args ?w1 = (cs1, w2)"
    by (cases "children self args ?w1") auto
  from Cons.prems(2) a rest have cs: "cs = next_ref w # cs1" and w': "w' = w2"
    by (simp_all add: split_beta)
  from Cons.prems(1) have lt1: "self < next_ref ?w1" and ne: "self \<noteq> next_ref w"
    by simp_all
  note ih = Cons.IH [OF lt1 rest]
  have h1: "heap ?w1 self =
      (heap w self)\<lparr>numberOfChildren := Suc (numberOfChildren (heap w self))\<rparr>"
    using ne by (simp add: heap_child)
  have hn: "heap ?w1 (next_ref w) =
      Action_init lgr (task_uuid (identification (heap w self)))
        (task_level (identification (heap w self)) @
           unicode_nat (Suc (numberOfChildren (heap w self))) @ ''/'') atype sers"
    by (simp add: heap_child)
  have frame1: "heap ?w1 r = heap w r" if "r < next_ref w" "r \<noteq> self" for r
    using that by (simp add: heap_child)
  have kept: "heap w2 (next_ref w) = heap ?w1 (next_ref w)"
    using ih ne by simp
  have each: "(next_ref w # cs1) ! i = next_ref w + i \<and>
        heap w2 (next_ref w + i) =
          Action_init (fst ((a # args) ! i)) (task_uuid (identification (heap w self)))
            (task_level (identification (heap w self)) @
               unicode_nat (numberOfChildren (heap w self) + Suc i) @ ''/'')
            (fst (snd ((a # args) ! i))) (snd (snd ((a # args) ! i)))"
    if "i < length (a # args)" for i
  proof (cases i)
    case 0
    then show ?thesis using kept hn a by simp
  next
    case (Suc j)
    with that have "j < length args" by simp
    with ih have "cs1 ! j = next_ref ?w1 + j \<and>
        heap w2 (next_ref ?w1 + j) =
          Action_init (fst (args ! j)) (task_uuid (identification (heap ?w1 self)))
            (task_level (identification (heap ?w1 self)) @
               unicode_nat (numberOfChildren (heap ?w1 self) + Suc j) @ ''/'')
            (fst (snd (args ! j))) (snd (snd (args ! j)))"
      by blast
    with Suc h1 show ?thesis by simp
  qed
  have frame: "heap w2 r = heap w r" if "r < next_ref w" "r \<noteq> self" for r
  proof -
    from that have "r < next_ref ?w1" by simp
    with ih that(2) have "heap w2 r = heap ?w1 r" by blast
    with frame1 [OF that] show ?thesis by simp
  qed
  from ih have basics: "length cs1 = length args" "next_ref w2 = next_ref ?w1 + length args"
    "the_context w2 = the_context ?w1" "deliveries w2 = deliveries ?w1"
    "heap w2 self =
       (heap ?w1 self)\<lparr>numberOfChildren := numberOfChildren (heap ?w1 self) + length args\<rparr>"
    by blast+
  from basics h1 each frame show ?case
    unfolding cs w' by simp
qed


lemma unicode_nat_digit: "n < 10 \<Longrightarrow> unicode_nat n = [digit_char n]"
  by (simp add: unicode_nat.simps [of n])

lemma unicode_nat_small:
  "unicode_nat (Suc 0) = ''1''" "unicode_nat (Suc (Suc 0)) = ''2''"
  "unicode_nat 2 = ''2''" "unicode_nat 3 = ''3''"
  by (simp_all add: unicode_nat_digit digit_char_def)

lemma unicode_nat_10: "unicode_nat 10 = ''10''"
  by (simp add: unicode_nat.simps [of 10] unicode_nat_digit digit_char_def)

lemma unicode_nat_12: "unicode_nat 12 = ''12''"
  by (simp add: unicode_nat.simps [of 12] unicode_nat_digit digit_char_def)

subsection \<open>The digits are the decimal notation\<close>

lemma below_ten:
  "d < 10 \<Longrightarrow> d = 0 \<or> d = 1 \<or> d = 2 \<or> d = 3 \<or> d = 4 \<or> d = 5 \<or> d = 6 \<or> d = 7 \<or> d = 8 \<or> d = (9::nat)"
  by arith

lemma digit_value_digit_char: "d < 10 \<Longrightarrow> digit_value (digit_char d) = d"
  using below_ten [of d] by (auto simp: digit_value_def digit_char_def)

lemma digit_char_in_digits: "d < 10 \<Longrightarrow> digit_char d \<in> set ''0123456789''"
  using below_ten [of d] by (auto simp: digit_char_def)

lemma digit_char_zero: "d < 10 \<Longrightarrow> digit_char d = CHR ''0'' \<longleftrightarrow> d = 0"
  using below_ten [of d] by (auto simp: digit_char_def)

lemma decimal_value_snoc: "decimal_value (s @ [c]) = 10 * decimal_value s + digit_value c"
  by (simp add: decimal_value_def)

lemma unicode_nat_not_empty: "unicode_nat n \<noteq> []"
  by (subst unicode_nat.simps) simp

lemma decimal_value_unicode_nat: "decimal_value (unicode_nat n) = n"
proof (induction n rule: unicode_nat.induct)
  case (1 n)
  show ?case
  proof (cases "n < 10")
    case True
    then show ?thesis
      by (simp add: unicode_nat_digit decimal_value_def digit_value_digit_char)
  next
    case False
    with "1" have "decimal_value (unicode_nat (n div 10)) = n div 10" by simp
    with False show ?thesis
      by (subst unicode_nat.simps) (simp add: decimal_value_snoc digit_value_digit_char)
  qed
qed

lemma unicode_nat_digits_only: "set (unicode_nat n) \<subseteq> set ''0123456789''"
proof (induction n rule: unicode_nat.induct)
  case (1 n)
  show ?case
  proof (cases "n < 10")
    case True
    then show ?thesis
      using digit_char_in_digits [of n] by (simp add: unicode_nat_digit)
  next
    case False
    with "1" have "set (unicode_nat (n div 10)) \<subseteq> set ''0123456789''" by simp
    with False digit_char_in_digits [of "n mod 10"] show ?thesis
      by (subst unicode_nat.simps) simp
  qed
qed

lemma unicode_nat_no_leading_zero: "0 < n \<Longrightarrow> hd (unicode_nat n) \<noteq> CHR ''0''"
proof (induction n rule: unicode_nat.induct)
  case (1 n)
  show ?case
  proof (cases "n < 10")
    case True
    with "1.prems" show ?thesis
      by (simp add: unicode_nat_digit digit_char_zero)
  next
    case False
    then have "0 < n div 10" by simp
    with "1.IH" False have "hd (unicode_nat (n div 10)) \<noteq> CHR ''0''" by simp
    with False show ?thesis
      by (subst unicode_nat.simps) (simp add: unicode_nat_not_empty)
  qed
qed


subsection \<open>Entering, leaving and nesting\<close>

lemma Action_start_attrs [simp]:
  "identification (heap (snd (Action_start self flds w)) r) = identification (heap w r)"
  "numberOfChildren (heap (snd (Action_start self flds w)) r) = numberOfChildren (heap w r)"
  "finished (heap (snd (Action_start self flds w)) r) = finished (heap w r)"
  "successFields (heap (snd (Action_start self flds w)) r) = successFields (heap w r)"
  by simp_all

lemma startAction_root:
  "the_context w t = [] \<Longrightarrow>
     startAction t lgr atype sers flds uuid4 w = startTask lgr atype sers flds uuid4 w"
  by (simp add: startAction_def current_def)

lemma startAction_child:
  "the_context w t = stk @ [parent] \<Longrightarrow>
     snd (startAction t lgr atype sers flds uuid4 w) =
       snd (Action_start (next_ref w) flds (snd (child parent lgr atype sers w)))"
  by (simp add: snd_startAction current_def)

lemma enter_simps [simp]:
  "fst (enter t self w) = self"
  "heap (snd (enter t self w)) = heap w"
  "next_ref (snd (enter t self w)) = next_ref w"
  "deliveries (snd (enter t self w)) = deliveries w"
  "the_context (snd (enter t self w)) = (the_context w) (t := the_context w t @ [self])"
  by (simp_all add: enter_def push_def)

lemma exit_top:
  "the_context w t = stk @ [r] \<Longrightarrow>
     exit t self exception w =
       (case fst (finish self exception (w\<lparr>the_context := (the_context w) (t := stk)\<rparr>)) of
          Some err \<Rightarrow> Inl err | None \<Rightarrow> Inr PNone,
        snd (finish self exception (w\<lparr>the_context := (the_context w) (t := stk)\<rparr>)))"
  by (simp add: exit_def pop_def split_beta)

lemma exit_empty: "the_context w t = [] \<Longrightarrow> exit t self exception w = (Inl IndexError, w)"
  by (simp add: exit_def pop_def)

lemma startAction_nesting:
  assumes "the_context w t = []"
  shows "let a = next_ref w; b = Suc a; c = Suc b; d = Suc c;
             w1 = snd (startAction t l1 y1 s1 f1 u1 w);
             w2 = snd (enter t a w1);
             w3 = snd (startAction t l2 y2 s2 f2 u2 w2);
             w4 = snd (enter t b w3);
             w5 = snd (startAction t l3 y3 s3 f3 u3 w4);
             w6 = snd (exit t b e w5);
             w7 = snd (startAction t l4 y4 s4 f4 u4 w6)
         in current t (the_context w2) = Some a \<and>
            current t (the_context w4) = Some b \<and>
            fst (exit t b e w5) \<noteq> Inl IndexError \<and>
            current t (the_context w6) = Some a \<and>
            identification (heap w7 a) = \<lparr>task_uuid = u1, task_level = ''/'', action_type = y1\<rparr> \<and>
            identification (heap w7 b) = \<lparr>task_uuid = u1, task_level = ''/1/'', action_type = y2\<rparr> \<and>
            identification (heap w7 c) = \<lparr>task_uuid = u1, task_level = ''/1/1/'', action_type = y3\<rparr> \<and>
            identification (heap w7 d) = \<lparr>task_uuid = u1, task_level = ''/2/'', action_type = y4\<rparr>"
proof -
  define n where "n = next_ref w"
  define w1 where "w1 = snd (startAction t l1 y1 s1 f1 u1 w)"
  define w2 where "w2 = snd (enter t n w1)"
  define w3 where "w3 = snd (startAction t l2 y2 s2 f2 u2 w2)"
  define w4 where "w4 = snd (enter t (Suc n) w3)"
  define w5 where "w5 = snd (startAction t l3 y3 s3 f3 u3 w4)"
  define w6 where "w6 = snd (exit t (Suc n) e w5)"
  define w7 where "w7 = snd (startAction t l4 y4 s4 f4 u4 w6)"
  have s1: "startAction t l1 y1 s1 f1 u1 w = startTask l1 y1 s1 f1 u1 w"
    by (rule startAction_root [OF assms])
  have w1: "next_ref w1 = Suc n" "the_context w1 t = []"
    "heap w1 n = (Action_init l1 u1 ''/'' y1 s1)\<lparr>numberOfMessages := 1\<rparr>"
    by (simp_all add: w1_def n_def s1 assms heap_startTask)
  have w2: "next_ref w2 = Suc n" "the_context w2 t = [] @ [n]" "heap w2 = heap w1"
    by (simp_all add: w2_def w1)
  have s3: "w3 = snd (Action_start (Suc n) f2 (snd (child n l2 y2 s2 w2)))"
    using startAction_child [OF w2(2)] w2(1) by (simp add: w3_def)
  have w3: "next_ref w3 = Suc (Suc n)" "the_context w3 t = [n]"
    "identification (heap w3 n) = \<lparr>task_uuid = u1, task_level = ''/'', action_type = y1\<rparr>"
    "numberOfChildren (heap w3 n) = 1"
    "identification (heap w3 (Suc n)) = \<lparr>task_uuid = u1, task_level = ''/1/'', action_type = y2\<rparr>"
    "numberOfChildren (heap w3 (Suc n)) = 0"
    by (simp_all add: s3 w2 w1 heap_child Action_init_def unicode_nat_small)
  have w4: "next_ref w4 = Suc (Suc n)" "the_context w4 t = [n] @ [Suc n]" "heap w4 = heap w3"
    by (simp_all add: w4_def w3)
  have s5: "w5 = snd (Action_start (Suc (Suc n)) f3 (snd (child (Suc n) l3 y3 s3 w4)))"
    using startAction_child [OF w4(2)] w4(1) by (simp add: w5_def)
  have w5: "next_ref w5 = Suc (Suc (Suc n))" "the_context w5 t = [n] @ [Suc n]"
    "identification (heap w5 n) = \<lparr>task_uuid = u1, task_level = ''/'', action_type = y1\<rparr>"
    "numberOfChildren (heap w5 n) = 1"
    "identification (heap w5 (Suc n)) = \<lparr>task_uuid = u1, task_level = ''/1/'', action_type = y2\<rparr>"
    "identification (heap w5 (Suc (Suc n))) =
       \<lparr>task_uuid = u1, task_level = ''/1/1/'', action_type = y3\<rparr>"
    by (simp_all add: s5 w4 w3 heap_child Action_init_def unicode_nat_small)
  note x = exit_top [OF w5(2), of "Suc n" e]
  have x1: "fst (exit t (Suc n) e w5) \<noteq> Inl IndexError"
    by (simp add: x fst_finish split: option.splits sum.splits)
  have s6: "w6 = snd (finish (Suc n) e (w5\<lparr>the_context := (the_context w5) (t := [n])\<rparr>))"
    by (simp add: w6_def x)
  have w6: "next_ref w6 = Suc (Suc (Suc n))" "the_context w6 t = [] @ [n]"
    "identification (heap w6 n) = \<lparr>task_uuid = u1, task_level = ''/'', action_type = y1\<rparr>"
    "numberOfChildren (heap w6 n) = 1"
    "identification (heap w6 (Suc n)) = \<lparr>task_uuid = u1, task_level = ''/1/'', action_type = y2\<rparr>"
    "identification (heap w6 (Suc (Suc n))) =
       \<lparr>task_uuid = u1, task_level = ''/1/1/'', action_type = y3\<rparr>"
    by (simp_all add: s6 w5)
  have s7: "w7 = snd (Action_start (Suc (Suc (Suc n))) f4 (snd (child n l4 y4 s4 w6)))"
    using startAction_child [OF w6(2)] w6(1) by (simp add: w7_def)
  have w7: "identification (heap w7 n) = \<lparr>task_uuid = u1, task_level = ''/'', action_type = y1\<rparr>"
    "identification (heap w7 (Suc n)) = \<lparr>task_uuid = u1, task_level = ''/1/'', action_type = y2\<rparr>"
    "identification (heap w7 (Suc (Suc n))) =
       \<lparr>task_uuid = u1, task_level = ''/1/1/'', action_type = y3\<rparr>"
    "identification (heap w7 (Suc (Suc (Suc n)))) =
       \<lparr>task_uuid = u1, task_level = ''/2/'', action_type = y4\<rparr>"
    by (simp_all add: s7 w6 heap_child Action_init_def unicode_nat_small)
  have c: "current t (the_context w2) = Some n" "current t (the_context w4) = Some (Suc n)"
    "current t (the_context w6) = Some n"
    by (simp_all add: current_def w2 w4 w6)
  show ?thesis
    unfolding Let_def n_def [symmetric] w1_def [symmetric] w2_def [symmetric] w3_def [symmetric]
      w4_def [symmetric] w5_def [symmetric] w6_def [symmetric] w7_def [symmetric]
    using c x1 w7 by simp
qed

subsection \<open>Continuations\<close>

lemma runCallbacks_append:
  "runCallbacks (ks @ ks') result w =
     (let (result1, w1) = runCallbacks ks result w in runCallbacks ks' result1 w1)"
  by (induction ks arbitrary: result w) (simp_all add: split_beta Let_def)

lemma finish_deliveries_context [simp]:
  "deliveries (snd (finish self e (w\<lparr>the_context := c\<rparr>))) = deliveries (snd (finish self e w))"
  by (simp add: finish_def Let_def split: option.splits)

lemma finish_fst_context [simp]:
  "fst (finish self e (w\<lparr>the_context := c\<rparr>)) = fst (finish self e w)"
  by (cases e) (simp_all add: fst_finish)

lemma finish_heap_context [simp]:
  "heap (snd (finish self e (w\<lparr>the_context := c\<rparr>))) = heap (snd (finish self e w))"
  by (cases e) (simp_all add: heap_finish)

section \<open>The claims\<close>

text \<open>
  C1, as amended. \<open>finish\<close> is idempotent. On an unfinished action the first call sets
  the finished flag and makes the one write of a finish message there will ever be for
  this action, within this action, with the status that follows that call's argument:
  succeeded for \<open>None\<close>, failed for an exception. The message reaches the logger
  exactly when the serializer does not fail; when it fails, the call raises the failure
  with the flag already set. Every later call, with any argument, directly after or
  after any other calls, returns without raising and leaves the world as it found it, so
  it writes nothing and changes nothing. Any number of calls in a row therefore leaves
  what the first one alone leaves: one finish message logged, or none when the first
  write failed.
\<close>

theorem C1_finish_idempotent:
  assumes "\<not> finished (heap w self)" and "self < next_ref w"
  shows "finished (heap (snd (finish self e w)) self)
    \<and> butlast (deliveries (snd (finish self e w))) = deliveries w
    \<and> length (deliveries (snd (finish self e w))) = Suc (length (deliveries w))
    \<and> within (last (deliveries (snd (finish self e w)))) = self
    \<and> contents (message (last (deliveries (snd (finish self e w))))) ''action_status'' =
        Some (PStr (if e = None then ''succeeded'' else ''failed''))
    \<and> fst (finish self e w) =
        (case serialized (last (deliveries (snd (finish self e w)))) of
           Inl x \<Rightarrow> Some (Raised x) | Inr y \<Rightarrow> None)
    \<and> logged (snd (finish self e w)) =
        (if fst (finish self e w) = None
         then logged w @ [last (deliveries (snd (finish self e w)))]
         else logged w)
    \<and> finish self e' (snd (finish self e w)) = (None, snd (finish self e w))
    \<and> finish_calls self (e # es) w = snd (finish self e w)
    \<and> finish self e' (snd (exec cs (snd (finish self e w)))) =
        (None, snd (exec cs (snd (finish self e w))))"
proof -
  let ?w' = "snd (finish self e w)"
  have fin: "finished (heap ?w' self)"
    by (rule finish_sets_finished)
  have msg: "butlast (deliveries ?w') = deliveries w
    \<and> length (deliveries ?w') = Suc (length (deliveries w))
    \<and> within (last (deliveries ?w')) = self
    \<and> contents (message (last (deliveries ?w'))) ''action_status'' =
        Some (PStr (if e = None then ''succeeded'' else ''failed''))
    \<and> fst (finish self e w) =
        (case serialized (last (deliveries ?w')) of Inl x \<Rightarrow> Some (Raised x) | Inr y \<Rightarrow> None)"
  proof (cases e)
    case None
    then show ?thesis
      using assms(1)
      by (simp add: deliveries_finish_success identification_fields_def fst_finish)
  next
    case (Some x)
    then show ?thesis
      using assms(1)
      by (simp add: deliveries_finish_failure identification_fields_def fst_finish)
  qed
  from msg have split: "deliveries ?w' = deliveries w @ [last (deliveries ?w')]"
    by (metis append_butlast_last_id length_0_conv nat.distinct(1))
  have lg: "logged ?w' =
      (if fst (finish self e w) = None then logged w @ [last (deliveries ?w')] else logged w)"
  proof -
    have "logged ?w' = filter (\<lambda>d. \<not> isl (serialized d)) (deliveries w @ [last (deliveries ?w')])"
      unfolding logged_def using split by simp
    also have "\<dots> = (if fst (finish self e w) = None
        then logged w @ [last (deliveries ?w')] else logged w)"
      using msg by (simp add: logged_def split: sum.splits)
    finally show ?thesis .
  qed
  have later: "finish self e' (snd (exec cs ?w')) = (None, snd (exec cs ?w'))"
  proof -
    from assms(2) have "self < next_ref ?w'" by simp
    from exec_finished [OF this fin] have "finished (heap (snd (exec cs ?w')) self)" by simp
    then show ?thesis by (rule finish_finished)
  qed
  from fin msg lg later show ?thesis
    by (simp add: finish_finished finish_calls_finished)
qed

theorem C1_finish_idempotent_witness:
  "\<not> finished (heap sample_world 0)
   \<and> 0 < next_ref sample_world
   \<and> finished (heap (snd (finish 0 None sample_world)) 0)
   \<and> fst (finish 0 None sample_world) = None
   \<and> length (logged (snd (finish 0 None sample_world))) = Suc (length (logged sample_world))
   \<and> finish_calls 0 [None, Some boom, None] sample_world = snd (finish 0 None sample_world)
   \<and> finish 0 (Some boom)
        (snd (exec [AddSuccessFields 0 [''x'' \<mapsto> PInt 1], Push 0 0, Pop 3]
               (snd (finish 0 None sample_world)))) =
       (None, snd (exec [AddSuccessFields 0 [''x'' \<mapsto> PInt 1], Push 0 0, Pop 3]
               (snd (finish 0 None sample_world))))"
proof -
  have h1: "\<not> finished (heap sample_world 0)"
    by (simp add: sample_world_simps Action_init_def)
  have h2: "0 < next_ref sample_world"
    by (simp add: sample_world_simps)
  note t = C1_finish_idempotent [OF h1 h2, of None "Some boom" "[Some boom, None]"
      "[AddSuccessFields 0 [''x'' \<mapsto> PInt 1], Push 0 0, Pop 3]"]
  have r: "fst (finish 0 None sample_world) = None"
    using h1 by (simp add: fst_finish sample_world_simps Action_init_def serialize_def tagging_def)
  from t r have l: "logged (snd (finish 0 None sample_world)) =
      logged sample_world @ [last (deliveries (snd (finish 0 None sample_world)))]"
    by simp
  from t have rest: "finished (heap (snd (finish 0 None sample_world)) 0)"
    "finish_calls 0 [None, Some boom, None] sample_world = snd (finish 0 None sample_world)"
    "finish 0 (Some boom)
        (snd (exec [AddSuccessFields 0 [''x'' \<mapsto> PInt 1], Push 0 0, Pop 3]
               (snd (finish 0 None sample_world)))) =
       (None, snd (exec [AddSuccessFields 0 [''x'' \<mapsto> PInt 1], Push 0 0, Pop 3]
               (snd (finish 0 None sample_world))))"
    by blast+
  from h1 h2 r l rest show ?thesis by simp
qed

text \<open>
  C1 as first stated does not hold for every action: the first \<open>finish\<close> sets the flag
  before it writes. With a success serializer that rejects the fields, the first call
  raises the validation failure and no finish message is logged, and the calls after it
  do nothing, so the action never gets its finish message.
\<close>

theorem C1_finish_idempotent_counterexample:
  "\<not> finished (heap strict_world 0)
   \<and> fst (finish 0 None strict_world) = Some (Raised invalid)
   \<and> finished (heap (snd (finish 0 None strict_world)) 0)
   \<and> logged (snd (finish 0 None strict_world)) = logged strict_world
   \<and> logged (finish_calls 0 [None, Some boom, None] strict_world) = logged strict_world"
proof -
  have a: "\<not> finished (heap strict_world 0)"
    by (simp add: strict_world_simps Action_init_def)
  have b: "fst (finish 0 None strict_world) = Some (Raised invalid)"
    using a by (simp add: fst_finish strict_world_simps Action_init_def serialize_def refusing_def)
  have c: "finished (heap (snd (finish 0 None strict_world)) 0)"
    by (rule finish_sets_finished)
  have d: "logged (snd (finish 0 None strict_world)) = logged strict_world"
    using a
    by (simp add: logged_def deliveries_finish_success strict_world_simps Action_init_def
        serialize_def refusing_def)
  have e: "finish_calls 0 [None, Some boom, None] strict_world = snd (finish 0 None strict_world)"
    using c by (simp add: finish_calls_finished finish_finished)
  from a b c d e show ?thesis by simp
qed

text \<open>
  C2. \<open>child\<close> called \<open>N\<close> times in a row on an action adds \<open>N\<close> to its number of
  children, one for each call. The child made by call \<open>i + 1\<close> has the parent's task
  level followed by the decimal rendering of the parent's number of children at that
  moment, which is \<open>i + 1\<close> more than before the calls (so \<open>1\<close>, \<open>2\<close>, ... on a
  new parent), and by a slash; it has the parent's \<open>task_uuid\<close> and the given action
  type. The rendering is the decimal one: a string of digits, without a leading zero,
  that denotes the number. No message is written, and the child has logged none: it is
  not started. Whatever calls follow, in particular \<open>finish\<close> in any order, the
  identification of each child stays what it was.
\<close>

theorem C2_child_levels:
  assumes "self < next_ref w" and "children self args w = (cs, w')"
  shows "length cs = length args
    \<and> numberOfChildren (heap w' self) = numberOfChildren (heap w self) + length args
    \<and> deliveries w' = deliveries w
    \<and> (\<forall>i<length args.
          task_level (identification (heap w' (cs ! i))) =
            task_level (identification (heap w self)) @
              unicode_nat (numberOfChildren (heap w self) + Suc i) @ ''/''
          \<and> decimal_value (unicode_nat (numberOfChildren (heap w self) + Suc i)) =
              numberOfChildren (heap w self) + Suc i
          \<and> set (unicode_nat (numberOfChildren (heap w self) + Suc i)) \<subseteq> set ''0123456789''
          \<and> hd (unicode_nat (numberOfChildren (heap w self) + Suc i)) \<noteq> CHR ''0''
          \<and> task_uuid (identification (heap w' (cs ! i))) =
              task_uuid (identification (heap w self))
          \<and> action_type (identification (heap w' (cs ! i))) = fst (snd (args ! i))
          \<and> numberOfMessages (heap w' (cs ! i)) = 0
          \<and> (\<forall>calls. identification (heap (snd (exec calls w')) (cs ! i)) =
                identification (heap w' (cs ! i))))"
proof -
  note p = children_props [OF assms]
  have each: "task_level (identification (heap w' (cs ! i))) =
            task_level (identification (heap w self)) @
              unicode_nat (numberOfChildren (heap w self) + Suc i) @ ''/''
          \<and> decimal_value (unicode_nat (numberOfChildren (heap w self) + Suc i)) =
              numberOfChildren (heap w self) + Suc i
          \<and> set (unicode_nat (numberOfChildren (heap w self) + Suc i)) \<subseteq> set ''0123456789''
          \<and> hd (unicode_nat (numberOfChildren (heap w self) + Suc i)) \<noteq> CHR ''0''
          \<and> task_uuid (identification (heap w' (cs ! i))) =
              task_uuid (identification (heap w self))
          \<and> action_type (identification (heap w' (cs ! i))) = fst (snd (args ! i))
          \<and> numberOfMessages (heap w' (cs ! i)) = 0
          \<and> (\<forall>calls. identification (heap (snd (exec calls w')) (cs ! i)) =
                identification (heap w' (cs ! i)))"
    if i: "i < length args" for i
  proof -
    from p i have c: "cs ! i = next_ref w + i"
      and h: "heap w' (next_ref w + i) =
          Action_init (fst (args ! i)) (task_uuid (identification (heap w self)))
            (task_level (identification (heap w self)) @
               unicode_nat (numberOfChildren (heap w self) + Suc i) @ ''/'')
            (fst (snd (args ! i))) (snd (snd (args ! i)))"
      by blast+
    from p i c have lt: "cs ! i < next_ref w'" by simp
    have later: "identification (heap (snd (exec calls w')) (cs ! i)) =
        identification (heap w' (cs ! i))" for calls
      using exec_identification [OF lt] by simp
    have dec: "decimal_value (unicode_nat (numberOfChildren (heap w self) + Suc i)) =
        numberOfChildren (heap w self) + Suc i"
      "set (unicode_nat (numberOfChildren (heap w self) + Suc i)) \<subseteq> set ''0123456789''"
      "hd (unicode_nat (numberOfChildren (heap w self) + Suc i)) \<noteq> CHR ''0''"
      using unicode_nat_no_leading_zero [of "numberOfChildren (heap w self) + Suc i"]
      by (simp_all only: decimal_value_unicode_nat unicode_nat_digits_only) simp
    from c h later dec show ?thesis by (simp add: Action_init_def)
  qed
  from p each show ?thesis by simp
qed

theorem C2_child_levels_witness:
  "0 < next_ref sample_world
   \<and> children 0 (replicate 12 (7, ''t:b'', None)) sample_world =
       (fst (children 0 (replicate 12 (7, ''t:b'', None)) sample_world),
        snd (children 0 (replicate 12 (7, ''t:b'', None)) sample_world))
   \<and> numberOfChildren
        (heap (snd (children 0 (replicate 12 (7, ''t:b'', None)) sample_world)) 0) = 12
   \<and> task_level (identification
        (heap (snd (children 0 (replicate 12 (7, ''t:b'', None)) sample_world))
           (fst (children 0 (replicate 12 (7, ''t:b'', None)) sample_world) ! 0))) = ''/1/''
   \<and> task_level (identification
        (heap (snd (children 0 (replicate 12 (7, ''t:b'', None)) sample_world))
           (fst (children 0 (replicate 12 (7, ''t:b'', None)) sample_world) ! 1))) = ''/2/''
   \<and> task_level (identification
        (heap (snd (children 0 (replicate 12 (7, ''t:b'', None)) sample_world))
           (fst (children 0 (replicate 12 (7, ''t:b'', None)) sample_world) ! 9))) = ''/10/''
   \<and> task_level (identification
        (heap (snd (children 0 (replicate 12 (7, ''t:b'', None)) sample_world))
           (fst (children 0 (replicate 12 (7, ''t:b'', None)) sample_world) ! 11))) = ''/12/''
   \<and> task_uuid (identification
        (heap (snd (children 0 (replicate 12 (7, ''t:b'', None)) sample_world))
           (fst (children 0 (replicate 12 (7, ''t:b'', None)) sample_world) ! 11))) = ''u1''
   \<and> task_level (identification
        (heap (snd (exec [Finish 2 None, Finish 1 (Some boom)]
              (snd (children 0 (replicate 12 (7, ''t:b'', None)) sample_world))))
           (fst (children 0 (replicate 12 (7, ''t:b'', None)) sample_world) ! 0))) = ''/1/''"
proof -
  let ?args = "replicate 12 (7, ''t:b'', None) :: (logger \<times> string \<times> action_serializers option) list"
  let ?cs = "fst (children 0 ?args sample_world)"
  let ?w' = "snd (children 0 ?args sample_world)"
  have h1: "0 < next_ref sample_world"
    by (simp add: sample_world_simps)
  have h2: "children 0 ?args sample_world = (?cs, ?w')"
    by simp
  note t = C2_child_levels [OF h1 h2]
  from t have n: "numberOfChildren (heap ?w' 0) = 12"
    by (simp del: children.simps add: sample_world_simps Action_init_def)
  from t have q: "\<forall>i<length ?args.
      task_level (identification (heap ?w' (?cs ! i))) =
        task_level (identification (heap sample_world 0)) @
          unicode_nat (numberOfChildren (heap sample_world 0) + Suc i) @ ''/''
      \<and> task_uuid (identification (heap ?w' (?cs ! i))) =
        task_uuid (identification (heap sample_world 0))
      \<and> (\<forall>calls. identification (heap (snd (exec calls ?w')) (?cs ! i)) =
            identification (heap ?w' (?cs ! i)))"
    by blast
  have len: "length ?args = 12" by simp
  have i0: "task_level (identification (heap sample_world 0)) = ''/''"
    "numberOfChildren (heap sample_world 0) = 0"
    "task_uuid (identification (heap sample_world 0)) = ''u1''"
    by (simp_all add: sample_world_simps Action_init_def)
  from q [rule_format, of 0]
  have l0: "task_level (identification (heap ?w' (?cs ! 0))) = ''/1/''"
    unfolding len i0 by (simp add: unicode_nat_small)
  from q [rule_format, of 1]
  have l1: "task_level (identification (heap ?w' (?cs ! 1))) = ''/2/''"
    unfolding len i0 by (simp add: unicode_nat_small)
  from q [rule_format, of 9]
  have l9: "task_level (identification (heap ?w' (?cs ! 9))) = ''/10/''"
    unfolding len i0 by (simp add: unicode_nat_10)
  from q [rule_format, of 11]
  have l11: "task_level (identification (heap ?w' (?cs ! 11))) = ''/12/''"
    "task_uuid (identification (heap ?w' (?cs ! 11))) = ''u1''"
    unfolding len i0 by (simp_all add: unicode_nat_12)
  have lt0: "0 < length ?args" by simp
  from q [rule_format, OF lt0]
  have "identification (heap (snd (exec [Finish 2 None, Finish 1 (Some boom)] ?w')) (?cs ! 0)) =
       identification (heap ?w' (?cs ! 0))"
    by blast
  with l0 have later: "task_level (identification
      (heap (snd (exec [Finish 2 None, Finish 1 (Some boom)] ?w')) (?cs ! 0))) = ''/1/''"
    by (simp only:)
  note l = l0 l1 l9 l11 later
  from h1 h2 n l show ?thesis
    by (simp del: children.simps exec_Cons replicate.simps)
qed

text \<open>
  C3. \<open>startAction\<close> looks up the current action of the calling thread. With none it
  is \<open>startTask\<close>: a new root action with the identifier drawn, level \<open>/\<close>, and its
  start message written with the given fields. With a current action it is \<open>child\<close> on
  that action followed by \<open>_start\<close> with the given fields on the child. In both cases
  the new action is returned, unless the start serializer rejects the fields, in which
  case the failure is raised. So from an empty context the first \<open>startAction\<close> gives
  level \<open>/\<close>; once that action is entered the next gives \<open>/1/\<close>; once that one is
  entered the next gives \<open>/1/1/\<close>; and after leaving \<open>/1/\<close> the next gives
  \<open>/2/\<close>; all four have the identifier of the root.
\<close>

theorem C3_startAction:
  assumes "current t (the_context w) = None" and "current t (the_context v) = Some parent"
  shows "startAction t lgr atype sers flds uuid4 w = startTask lgr atype sers flds uuid4 w
    \<and> fst (startTask lgr atype sers flds uuid4 w) =
        (case serialize (map_option start sers)
           (flds (''action_status'' \<mapsto> PStr ''started'',
              ''task_uuid'' \<mapsto> PStr uuid4, ''task_level'' \<mapsto> PStr ''/'',
              ''action_type'' \<mapsto> PStr atype)) of
           Inl x \<Rightarrow> Inl (Raised x) | Inr y \<Rightarrow> Inr (next_ref w))
    \<and> heap (snd (startTask lgr atype sers flds uuid4 w)) (next_ref w) =
        (Action_init lgr uuid4 ''/'' atype sers)\<lparr>numberOfMessages := 1\<rparr>
    \<and> deliveries (snd (startTask lgr atype sers flds uuid4 w)) =
        deliveries w @
          [\<lparr>message =
              \<lparr>contents = flds (''action_status'' \<mapsto> PStr ''started'',
                 ''task_uuid'' \<mapsto> PStr uuid4, ''task_level'' \<mapsto> PStr ''/'',
                 ''action_type'' \<mapsto> PStr atype),
               serializer = (case sers of None \<Rightarrow> None | Some s \<Rightarrow> Some (start s))\<rparr>,
            written_to = lgr, within = next_ref w, action_counter = 0,
            serialized = serialize (map_option start sers)
              (flds (''action_status'' \<mapsto> PStr ''started'',
                 ''task_uuid'' \<mapsto> PStr uuid4, ''task_level'' \<mapsto> PStr ''/'',
                 ''action_type'' \<mapsto> PStr atype))\<rparr>]
    \<and> startAction t lgr atype sers flds uuid4 v =
        (let (action, v1) = child parent lgr atype sers v;
             (r, v2) = Action_start action flds v1
         in (case r of Some err \<Rightarrow> Inl err | None \<Rightarrow> Inr action, v2))
    \<and> fst (startAction t lgr atype sers flds uuid4 v) =
        (case serialize (map_option start sers)
           (flds (''action_status'' \<mapsto> PStr ''started'',
              ''task_uuid'' \<mapsto> PStr (task_uuid (identification (heap v parent))),
              ''task_level'' \<mapsto> PStr (task_level (identification (heap v parent)) @
                 unicode_nat (Suc (numberOfChildren (heap v parent))) @ ''/''),
              ''action_type'' \<mapsto> PStr atype)) of
           Inl x \<Rightarrow> Inl (Raised x) | Inr y \<Rightarrow> Inr (next_ref v))
    \<and> identification (heap (snd (startAction t lgr atype sers flds uuid4 v)) (next_ref v)) =
        \<lparr>task_uuid = task_uuid (identification (heap v parent)),
         task_level = task_level (identification (heap v parent)) @
           unicode_nat (Suc (numberOfChildren (heap v parent))) @ ''/'',
         action_type = atype\<rparr>
    \<and> deliveries (snd (startAction t lgr atype sers flds uuid4 v)) =
        deliveries v @
          [\<lparr>message =
              \<lparr>contents = flds (''action_status'' \<mapsto> PStr ''started'',
                 ''task_uuid'' \<mapsto> PStr (task_uuid (identification (heap v parent))),
                 ''task_level'' \<mapsto> PStr (task_level (identification (heap v parent)) @
                    unicode_nat (Suc (numberOfChildren (heap v parent))) @ ''/''),
                 ''action_type'' \<mapsto> PStr atype),
               serializer = (case sers of None \<Rightarrow> None | Some s \<Rightarrow> Some (start s))\<rparr>,
            written_to = lgr, within = next_ref v, action_counter = 0,
            serialized = serialize (map_option start sers)
              (flds (''action_status'' \<mapsto> PStr ''started'',
                 ''task_uuid'' \<mapsto> PStr (task_uuid (identification (heap v parent))),
                 ''task_level'' \<mapsto> PStr (task_level (identification (heap v parent)) @
                    unicode_nat (Suc (numberOfChildren (heap v parent))) @ ''/''),
                 ''action_type'' \<mapsto> PStr atype))\<rparr>]
    \<and> (let a = next_ref w; b = Suc a; c = Suc b; d = Suc c;
             w1 = snd (startAction t l1 y1 s1 f1 u1 w);
             w2 = snd (enter t a w1);
             w3 = snd (startAction t l2 y2 s2 f2 u2 w2);
             w4 = snd (enter t b w3);
             w5 = snd (startAction t l3 y3 s3 f3 u3 w4);
             w6 = snd (exit t b e w5);
             w7 = snd (startAction t l4 y4 s4 f4 u4 w6)
         in current t (the_context w2) = Some a \<and>
            current t (the_context w4) = Some b \<and>
            fst (exit t b e w5) \<noteq> Inl IndexError \<and>
            current t (the_context w6) = Some a \<and>
            identification (heap w7 a) = \<lparr>task_uuid = u1, task_level = ''/'', action_type = y1\<rparr> \<and>
            identification (heap w7 b) = \<lparr>task_uuid = u1, task_level = ''/1/'', action_type = y2\<rparr> \<and>
            identification (heap w7 c) = \<lparr>task_uuid = u1, task_level = ''/1/1/'', action_type = y3\<rparr> \<and>
            identification (heap w7 d) = \<lparr>task_uuid = u1, task_level = ''/2/'', action_type = y4\<rparr>)"
proof -
  from assms(1) have empty: "the_context w t = []"
    by (simp add: current_def split: if_splits)
  have root: "startAction t lgr atype sers flds uuid4 w = startTask lgr atype sers flds uuid4 w"
    by (rule startAction_root [OF empty])
  have task_ret: "fst (startTask lgr atype sers flds uuid4 w) =
        (case serialize (map_option start sers)
           (flds (''action_status'' \<mapsto> PStr ''started'',
              ''task_uuid'' \<mapsto> PStr uuid4, ''task_level'' \<mapsto> PStr ''/'',
              ''action_type'' \<mapsto> PStr atype)) of
           Inl x \<Rightarrow> Inl (Raised x) | Inr y \<Rightarrow> Inr (next_ref w))"
    by (simp add: fst_startTask identification_fields_def)
  have task_heap: "heap (snd (startTask lgr atype sers flds uuid4 w)) (next_ref w) =
        (Action_init lgr uuid4 ''/'' atype sers)\<lparr>numberOfMessages := 1\<rparr>"
    by (simp add: heap_startTask)
  have task_msg: "deliveries (snd (startTask lgr atype sers flds uuid4 w)) =
        deliveries w @
          [\<lparr>message =
              \<lparr>contents = flds (''action_status'' \<mapsto> PStr ''started'',
                 ''task_uuid'' \<mapsto> PStr uuid4, ''task_level'' \<mapsto> PStr ''/'',
                 ''action_type'' \<mapsto> PStr atype),
               serializer = (case sers of None \<Rightarrow> None | Some s \<Rightarrow> Some (start s))\<rparr>,
            written_to = lgr, within = next_ref w, action_counter = 0,
            serialized = serialize (map_option start sers)
              (flds (''action_status'' \<mapsto> PStr ''started'',
                 ''task_uuid'' \<mapsto> PStr uuid4, ''task_level'' \<mapsto> PStr ''/'',
                 ''action_type'' \<mapsto> PStr atype))\<rparr>]"
    by (simp add: deliveries_startTask identification_fields_def split: option.splits)
  have nested: "startAction t lgr atype sers flds uuid4 v =
        (let (action, v1) = child parent lgr atype sers v;
             (r, v2) = Action_start action flds v1
         in (case r of Some err \<Rightarrow> Inl err | None \<Rightarrow> Inr action, v2))"
    using assms(2) by (simp add: startAction_def)
  have nested_ret: "fst (startAction t lgr atype sers flds uuid4 v) =
        (case serialize (map_option start sers)
           (flds (''action_status'' \<mapsto> PStr ''started'',
              ''task_uuid'' \<mapsto> PStr (task_uuid (identification (heap v parent))),
              ''task_level'' \<mapsto> PStr (task_level (identification (heap v parent)) @
                 unicode_nat (Suc (numberOfChildren (heap v parent))) @ ''/''),
              ''action_type'' \<mapsto> PStr atype)) of
           Inl x \<Rightarrow> Inl (Raised x) | Inr y \<Rightarrow> Inr (next_ref v))"
    using assms(2) by (simp add: fst_startAction identification_fields_def)
  have nested_id: "identification (heap (snd (startAction t lgr atype sers flds uuid4 v))
          (next_ref v)) =
        \<lparr>task_uuid = task_uuid (identification (heap v parent)),
         task_level = task_level (identification (heap v parent)) @
           unicode_nat (Suc (numberOfChildren (heap v parent))) @ ''/'',
         action_type = atype\<rparr>"
    using assms(2) by (simp add: snd_startAction heap_child Action_init_def)
  have nested_msg: "deliveries (snd (startAction t lgr atype sers flds uuid4 v)) =
        deliveries v @
          [\<lparr>message =
              \<lparr>contents = flds (''action_status'' \<mapsto> PStr ''started'',
                 ''task_uuid'' \<mapsto> PStr (task_uuid (identification (heap v parent))),
                 ''task_level'' \<mapsto> PStr (task_level (identification (heap v parent)) @
                    unicode_nat (Suc (numberOfChildren (heap v parent))) @ ''/''),
                 ''action_type'' \<mapsto> PStr atype),
               serializer = (case sers of None \<Rightarrow> None | Some s \<Rightarrow> Some (start s))\<rparr>,
            written_to = lgr, within = next_ref v, action_counter = 0,
            serialized = serialize (map_option start sers)
              (flds (''action_status'' \<mapsto> PStr ''started'',
                 ''task_uuid'' \<mapsto> PStr (task_uuid (identification (heap v parent))),
                 ''task_level'' \<mapsto> PStr (task_level (identification (heap v parent)) @
                    unicode_nat (Suc (numberOfChildren (heap v parent))) @ ''/''),
                 ''action_type'' \<mapsto> PStr atype))\<rparr>]"
    using assms(2)
    by (cases sers)
      (simp_all add: snd_startAction deliveries_Action_start heap_child
         Action_init_def identification_fields_def)
  show ?thesis
    by (rule conjI [OF root conjI [OF task_ret conjI [OF task_heap conjI [OF task_msg
          conjI [OF nested conjI [OF nested_ret conjI [OF nested_id conjI [OF nested_msg
            startAction_nesting [OF empty]]]]]]]]])
qed

theorem C3_startAction_witness:
  "current 0 (the_context empty_world) = None
   \<and> current 0 (the_context (snd (enter 0 0 sample_world))) = Some 0
   \<and> startAction 0 7 ''t:a'' None Map.empty ''u1'' empty_world =
       startTask 7 ''t:a'' None Map.empty ''u1'' empty_world
   \<and> fst (startTask 7 ''t:a'' None Map.empty ''u1'' empty_world) = Inr 0
   \<and> fst (startAction 0 7 ''t:b'' None Map.empty ''u2'' (snd (enter 0 0 sample_world))) = Inr 1
   \<and> identification (heap (snd (startAction 0 7 ''t:b'' None Map.empty ''u2''
         (snd (enter 0 0 sample_world)))) 1) =
       \<lparr>task_uuid = ''u1'', task_level = ''/1/'', action_type = ''t:b''\<rparr>"
proof -
  have h1: "current 0 (the_context empty_world) = None"
    by (simp add: current_def empty_world_def ExecutionContext_init_def)
  have h2: "current 0 (the_context (snd (enter 0 0 sample_world))) = Some 0"
    by (simp add: current_def)
  note t = C3_startAction [OF h1 h2]
  have a: "startAction 0 7 ''t:a'' None Map.empty ''u1'' empty_world =
       startTask 7 ''t:a'' None Map.empty ''u1'' empty_world"
    by (rule t [THEN conjunct1])
  have b: "fst (startTask 7 ''t:a'' None Map.empty ''u1'' empty_world) = Inr 0"
    using t [THEN conjunct2, THEN conjunct1, of 7 "''t:a''" None Map.empty "''u1''"]
    by (simp add: serialize_def empty_world_def)
  have c: "fst (startAction 0 7 ''t:b'' None Map.empty ''u2'' (snd (enter 0 0 sample_world))) =
      Inr 1"
    using t [THEN conjunct2, THEN conjunct2, THEN conjunct2, THEN conjunct2, THEN conjunct2,
        THEN conjunct1, of 7 "''t:b''" None Map.empty "''u2''"]
    by (simp add: serialize_def sample_world_simps)
  have d: "identification (heap (snd (startAction 0 7 ''t:b'' None Map.empty ''u2''
         (snd (enter 0 0 sample_world)))) 1) =
       \<lparr>task_uuid = ''u1'', task_level = ''/1/'', action_type = ''t:b''\<rparr>"
    using t [THEN conjunct2, THEN conjunct2, THEN conjunct2, THEN conjunct2, THEN conjunct2,
        THEN conjunct2, THEN conjunct1, of 7 "''t:b''" None Map.empty "''u2''"]
    by (simp add: sample_world_simps Action_init_def unicode_nat_small)
  from h1 h2 a b c d show ?thesis by simp
qed

text \<open>
  C4. On an unfinished action, \<open>finish\<close> with an exception writes one message whose
  fields are exactly: \<open>exception\<close>, the module and name of the exception's class joined
  by a dot; \<open>reason\<close>, the string form of the exception; \<open>action_status\<close>,
  \<open>failed\<close>; and the three identification fields. Success fields added before are not
  in it, and the message carries the failure serializer when the action has serializers:
  what the logger gets is what that serializer makes of these fields.
\<close>

theorem C4_finish_failure:
  assumes "\<not> finished (heap w self)"
  shows "deliveries (snd (finish self (Some e) w)) =
      deliveries w @
        [\<lparr>message =
            \<lparr>contents =
               [''exception'' \<mapsto> PStr (class_module e @ ''.'' @ class_name e),
                ''reason'' \<mapsto> PStr (safeunicode e),
                ''action_status'' \<mapsto> PStr ''failed'',
                ''task_uuid'' \<mapsto> PStr (task_uuid (identification (heap w self))),
                ''task_level'' \<mapsto> PStr (task_level (identification (heap w self))),
                ''action_type'' \<mapsto> PStr (action_type (identification (heap w self)))],
             serializer =
               (case serializers (heap w self) of None \<Rightarrow> None | Some s \<Rightarrow> Some (failure s))\<rparr>,
          written_to = logger_of (heap w self), within = self,
          action_counter = numberOfMessages (heap w self),
          serialized =
            serialize
              (case serializers (heap w self) of None \<Rightarrow> None | Some s \<Rightarrow> Some (failure s))
              [''exception'' \<mapsto> PStr (class_module e @ ''.'' @ class_name e),
               ''reason'' \<mapsto> PStr (safeunicode e),
               ''action_status'' \<mapsto> PStr ''failed'',
               ''task_uuid'' \<mapsto> PStr (task_uuid (identification (heap w self))),
               ''task_level'' \<mapsto> PStr (task_level (identification (heap w self))),
               ''action_type'' \<mapsto> PStr (action_type (identification (heap w self)))]\<rparr>]
    \<and> dom (contents (message (last (deliveries (snd (finish self (Some e) w)))))) =
        {''exception'', ''reason'', ''action_status'', ''task_uuid'', ''task_level'', ''action_type''}
    \<and> deliveries (snd (finish self (Some e) (addSuccessFields self flds w))) =
        deliveries (snd (finish self (Some e) w))"
  using assms
  by (auto simp: deliveries_finish_failure identification_fields_def addSuccessFields_def
      split: option.splits)

theorem C4_finish_failure_witness:
  "\<not> finished (heap (addSuccessFields 0 [''x'' \<mapsto> PInt 1] sample_world) 0)
   \<and> message (last (deliveries
         (snd (finish 0 (Some boom) (addSuccessFields 0 [''x'' \<mapsto> PInt 1] sample_world))))) =
       \<lparr>contents =
          [''exception'' \<mapsto> PStr ''exceptions.ValueError'',
           ''reason'' \<mapsto> PStr ''boom'',
           ''action_status'' \<mapsto> PStr ''failed'',
           ''task_uuid'' \<mapsto> PStr ''u1'',
           ''task_level'' \<mapsto> PStr ''/'',
           ''action_type'' \<mapsto> PStr ''t:a''],
        serializer = Some (tagging ''failure'')\<rparr>
   \<and> serialized (last (deliveries
         (snd (finish 0 (Some boom) (addSuccessFields 0 [''x'' \<mapsto> PInt 1] sample_world))))) =
       Inr [''exception'' \<mapsto> PStr ''exceptions.ValueError'',
           ''reason'' \<mapsto> PStr ''boom'',
           ''action_status'' \<mapsto> PStr ''failed'',
           ''task_uuid'' \<mapsto> PStr ''u1'',
           ''task_level'' \<mapsto> PStr ''/'',
           ''action_type'' \<mapsto> PStr ''t:a'',
           ''serialized_by'' \<mapsto> PStr ''failure'']"
proof -
  have h: "\<not> finished (heap (addSuccessFields 0 [''x'' \<mapsto> PInt 1] sample_world) 0)"
    by (simp add: addSuccessFields_def sample_world_simps Action_init_def)
  from C4_finish_failure [OF h, of boom Map.empty] h
  show ?thesis
    by (simp add: addSuccessFields_def sample_world_simps Action_init_def boom_def
        safeunicode_def serialize_def tagging_def)
qed

text \<open>
  C5. On an unfinished action, \<open>finish\<close> without an exception writes one message whose
  fields are exactly the success fields accumulated so far, with \<open>action_status\<close> set to
  \<open>succeeded\<close> and the three identification fields. The accumulated fields are what the
  action held in an earlier world \<open>w\<close> together with all that the \<open>addSuccessFields\<close>
  calls since then have merged; for an action created since, that is what those calls
  added and nothing else. The message carries the success serializer when the action has
  serializers: what the logger gets is what that serializer makes of these fields.
\<close>

theorem C5_finish_success:
  assumes "self < next_ref w" and "snd (exec cs w) = w'" and "\<not> finished (heap w' self)"
  shows "deliveries (snd (finish self None w')) =
      deliveries w' @
        [\<lparr>message =
            \<lparr>contents =
               (accumulated self cs (successFields (heap w self)))
                 (''action_status'' \<mapsto> PStr ''succeeded'',
                  ''task_uuid'' \<mapsto> PStr (task_uuid (identification (heap w self))),
                  ''task_level'' \<mapsto> PStr (task_level (identification (heap w self))),
                  ''action_type'' \<mapsto> PStr (action_type (identification (heap w self)))),
             serializer =
               (case serializers (heap w self) of None \<Rightarrow> None | Some s \<Rightarrow> Some (success s))\<rparr>,
          written_to = logger_of (heap w self), within = self,
          action_counter = numberOfMessages (heap w' self),
          serialized =
            serialize
              (case serializers (heap w self) of None \<Rightarrow> None | Some s \<Rightarrow> Some (success s))
              ((accumulated self cs (successFields (heap w self)))
                 (''action_status'' \<mapsto> PStr ''succeeded'',
                  ''task_uuid'' \<mapsto> PStr (task_uuid (identification (heap w self))),
                  ''task_level'' \<mapsto> PStr (task_level (identification (heap w self))),
                  ''action_type'' \<mapsto> PStr (action_type (identification (heap w self)))))\<rparr>]
    \<and> dom (contents (message (last (deliveries (snd (finish self None w')))))) =
        dom (accumulated self cs (successFields (heap w self))) \<union>
          {''action_status'', ''task_uuid'', ''task_level'', ''action_type''}"
proof -
  from assms(2,3) have u: "\<not> finished (heap (snd (exec cs w)) self)" by simp
  have acc: "successFields (heap w' self) = accumulated self cs (successFields (heap w self))"
    using exec_successFields [OF assms(1) u] assms(2) by simp
  have same: "identification (heap w' self) = identification (heap w self)"
    "serializers (heap w' self) = serializers (heap w self)"
    "logger_of (heap w' self) = logger_of (heap w self)"
    using exec_identification [OF assms(1), of cs] assms(2) by simp_all
  show ?thesis
    using assms(3)
    by (auto simp: deliveries_finish_success identification_fields_def acc same
        split: option.splits)
qed

theorem C5_finish_success_witness:
  "0 < next_ref sample_world
   \<and> snd (exec [AddSuccessFields 0 [''x'' \<mapsto> PInt 1], Pop 0] sample_world) =
       addSuccessFields 0 [''x'' \<mapsto> PInt 1] sample_world
   \<and> \<not> finished (heap (addSuccessFields 0 [''x'' \<mapsto> PInt 1] sample_world) 0)
   \<and> message (last (deliveries
         (snd (finish 0 None (addSuccessFields 0 [''x'' \<mapsto> PInt 1] sample_world))))) =
       \<lparr>contents =
          [''x'' \<mapsto> PInt 1,
           ''action_status'' \<mapsto> PStr ''succeeded'',
           ''task_uuid'' \<mapsto> PStr ''u1'',
           ''task_level'' \<mapsto> PStr ''/'',
           ''action_type'' \<mapsto> PStr ''t:a''],
        serializer = Some (tagging ''success'')\<rparr>
   \<and> serialized (last (deliveries
         (snd (finish 0 None (addSuccessFields 0 [''x'' \<mapsto> PInt 1] sample_world))))) =
       Inr [''x'' \<mapsto> PInt 1,
           ''action_status'' \<mapsto> PStr ''succeeded'',
           ''task_uuid'' \<mapsto> PStr ''u1'',
           ''task_level'' \<mapsto> PStr ''/'',
           ''action_type'' \<mapsto> PStr ''t:a'',
           ''serialized_by'' \<mapsto> PStr ''success'']"
proof -
  have h1: "0 < next_ref sample_world"
    by (simp add: sample_world_simps)
  have h2: "snd (exec [AddSuccessFields 0 [''x'' \<mapsto> PInt 1], Pop 0] sample_world) =
      addSuccessFields 0 [''x'' \<mapsto> PInt 1] sample_world"
    by (simp add: sample_world_simps ExecutionContext_init_def pop_def)
  have h3: "\<not> finished (heap (addSuccessFields 0 [''x'' \<mapsto> PInt 1] sample_world) 0)"
    by (simp add: addSuccessFields_def sample_world_simps Action_init_def)
  from C5_finish_success [OF h1 h2 h3] h1 h2 h3
  show ?thesis
    by (simp add: sample_world_simps Action_init_def serialize_def tagging_def)
qed

text \<open>
  C6, as amended. Used in a \<open>with\<close> statement, the action is pushed on entry and is
  the current action inside. \<open>__exit__\<close> pops the top of the stack and calls
  \<open>finish\<close> with the exception that left the body, \<open>None\<close> after a normal exit,
  and returns \<open>None\<close>. When at exit the action is on top of the stack, as it is when
  the pushes and pops inside the body were paired, and is not yet finished, that pop
  takes the action off, and exactly one message is written on exit: for an exception,
  the failure message with that exception's class and text. The statement then hands the
  same exception on to its caller, unless the serializer rejects the finish message, in
  which case the validation failure reaches the caller in its place.
\<close>

theorem C6_exit_finishes:
  assumes "body self (snd (enter t self v)) = (exc, w)"
    and "the_context w t = the_context v t @ [self]"
    and "\<not> finished (heap w self)"
  shows "fst (enter t self v) = self
    \<and> current t (the_context (snd (enter t self v))) = Some self
    \<and> exit t self exc w =
        (case fst (finish self exc w) of Some err \<Rightarrow> Inl err | None \<Rightarrow> Inr PNone,
         snd (finish self exc (w\<lparr>the_context := (the_context w) (t := the_context v t)\<rparr>)))
    \<and> with_statement t self body v =
        (case fst (finish self exc w) of Some err \<Rightarrow> Some err | None \<Rightarrow> map_option Raised exc,
         snd (finish self exc (w\<lparr>the_context := (the_context w) (t := the_context v t)\<rparr>)))
    \<and> the_context (snd (with_statement t self body v)) t = the_context v t
    \<and> finished (heap (snd (with_statement t self body v)) self)
    \<and> length (deliveries (snd (with_statement t self body v))) = Suc (length (deliveries w))
    \<and> fst (finish self exc w) =
        (case serialized (last (deliveries (snd (with_statement t self body v)))) of
           Inl x \<Rightarrow> Some (Raised x) | Inr y \<Rightarrow> None)
    \<and> (case exc of
          None \<Rightarrow>
            deliveries (snd (with_statement t self body v)) = deliveries (snd (finish self None w))
        | Some e \<Rightarrow>
            deliveries (snd (with_statement t self body v)) =
            deliveries w @
              [\<lparr>message =
                  \<lparr>contents =
                     [''exception'' \<mapsto> PStr (class_module e @ ''.'' @ class_name e),
                      ''reason'' \<mapsto> PStr (safeunicode e),
                      ''action_status'' \<mapsto> PStr ''failed'',
                      ''task_uuid'' \<mapsto> PStr (task_uuid (identification (heap w self))),
                      ''task_level'' \<mapsto> PStr (task_level (identification (heap w self))),
                      ''action_type'' \<mapsto> PStr (action_type (identification (heap w self)))],
                   serializer =
                     (case serializers (heap w self) of
                        None \<Rightarrow> None | Some s \<Rightarrow> Some (failure s))\<rparr>,
                written_to = logger_of (heap w self), within = self,
                action_counter = numberOfMessages (heap w self),
                serialized =
                  serialize
                    (case serializers (heap w self) of
                       None \<Rightarrow> None | Some s \<Rightarrow> Some (failure s))
                    [''exception'' \<mapsto> PStr (class_module e @ ''.'' @ class_name e),
                     ''reason'' \<mapsto> PStr (safeunicode e),
                     ''action_status'' \<mapsto> PStr ''failed'',
                     ''task_uuid'' \<mapsto> PStr (task_uuid (identification (heap w self))),
                     ''task_level'' \<mapsto> PStr (task_level (identification (heap w self))),
                     ''action_type'' \<mapsto> PStr (action_type (identification (heap w self)))]\<rparr>])"
proof -
  let ?w0 = "w\<lparr>the_context := (the_context w) (t := the_context v t)\<rparr>"
  have x: "exit t self exc w =
        (case fst (finish self exc w) of Some err \<Rightarrow> Inl err | None \<Rightarrow> Inr PNone,
         snd (finish self exc ?w0))"
    using exit_top [OF assms(2), of self exc] by simp
  have ws: "with_statement t self body v =
        (case fst (finish self exc w) of Some err \<Rightarrow> Some err | None \<Rightarrow> map_option Raised exc,
         snd (finish self exc ?w0))"
    using assms(1) x
    by (cases exc; cases "fst (finish self exc w)") (simp_all add: with_statement_def split_beta)
  have u0: "\<not> finished (heap ?w0 self)"
    using assms(3) by simp
  have msg: "deliveries (snd (finish self (Some e) w)) =
            deliveries w @
              [\<lparr>message =
                  \<lparr>contents =
                     [''exception'' \<mapsto> PStr (class_module e @ ''.'' @ class_name e),
                      ''reason'' \<mapsto> PStr (safeunicode e),
                      ''action_status'' \<mapsto> PStr ''failed'',
                      ''task_uuid'' \<mapsto> PStr (task_uuid (identification (heap w self))),
                      ''task_level'' \<mapsto> PStr (task_level (identification (heap w self))),
                      ''action_type'' \<mapsto> PStr (action_type (identification (heap w self)))],
                   serializer =
                     (case serializers (heap w self) of
                        None \<Rightarrow> None | Some s \<Rightarrow> Some (failure s))\<rparr>,
                written_to = logger_of (heap w self), within = self,
                action_counter = numberOfMessages (heap w self),
                serialized =
                  serialize
                    (case serializers (heap w self) of
                       None \<Rightarrow> None | Some s \<Rightarrow> Some (failure s))
                    [''exception'' \<mapsto> PStr (class_module e @ ''.'' @ class_name e),
                     ''reason'' \<mapsto> PStr (safeunicode e),
                     ''action_status'' \<mapsto> PStr ''failed'',
                     ''task_uuid'' \<mapsto> PStr (task_uuid (identification (heap w self))),
                     ''task_level'' \<mapsto> PStr (task_level (identification (heap w self))),
                     ''action_type'' \<mapsto> PStr (action_type (identification (heap w self)))]\<rparr>]"
    for e
    using assms(3)
    by (auto simp: deliveries_finish_failure identification_fields_def split: option.splits)
  have one: "length (deliveries (snd (finish self exc w))) = Suc (length (deliveries w))"
    "fst (finish self exc w) =
        (case serialized (last (deliveries (snd (finish self exc w)))) of
           Inl x \<Rightarrow> Some (Raised x) | Inr y \<Rightarrow> None)"
    using assms(3)
    by (cases exc;
        simp add: deliveries_finish_success deliveries_finish_failure fst_finish)+
  have fin: "finished (heap (snd (finish self exc w)) self)"
    by (rule finish_sets_finished)
  from x ws msg one fin show ?thesis
    by (simp add: current_def split: option.splits)
qed

theorem C6_exit_finishes_witness:
  "(\<lambda>a w. (Some boom, addSuccessFields a [''x'' \<mapsto> PInt 1] w)) 0 (snd (enter 0 0 sample_world)) =
     (Some boom, addSuccessFields 0 [''x'' \<mapsto> PInt 1] (snd (enter 0 0 sample_world)))
   \<and> the_context (addSuccessFields 0 [''x'' \<mapsto> PInt 1] (snd (enter 0 0 sample_world))) 0 =
       the_context sample_world 0 @ [0]
   \<and> \<not> finished (heap (addSuccessFields 0 [''x'' \<mapsto> PInt 1] (snd (enter 0 0 sample_world))) 0)
   \<and> fst (with_statement 0 0 (\<lambda>a w. (Some boom, addSuccessFields a [''x'' \<mapsto> PInt 1] w))
           sample_world) = Some (Raised boom)
   \<and> length (deliveries (snd
        (with_statement 0 0 (\<lambda>a w. (Some boom, addSuccessFields a [''x'' \<mapsto> PInt 1] w))
           sample_world))) = 2
   \<and> contents (message (last (deliveries (snd
        (with_statement 0 0 (\<lambda>a w. (Some boom, addSuccessFields a [''x'' \<mapsto> PInt 1] w))
           sample_world))))) ''reason'' = Some (PStr ''boom'')"
proof -
  let ?body = "\<lambda>a w. (Some boom, addSuccessFields a [''x'' \<mapsto> PInt 1] w)"
  let ?w = "addSuccessFields 0 [''x'' \<mapsto> PInt 1] (snd (enter 0 0 sample_world))"
  have h1: "?body 0 (snd (enter 0 0 sample_world)) = (Some boom, ?w)"
    by simp
  have h2: "the_context ?w 0 = the_context sample_world 0 @ [0]"
    by simp
  have h3: "\<not> finished (heap ?w 0)"
    by (simp add: sample_world_simps Action_init_def)
  have r: "fst (finish 0 (Some boom) ?w) = None"
    using h3 by (simp add: fst_finish sample_world_simps Action_init_def serialize_def tagging_def)
  note t = C6_exit_finishes [of ?body 0 0 sample_world "Some boom" ?w, OF h1 h2 h3]
  note t4 = t [THEN conjunct2, THEN conjunct2, THEN conjunct2, THEN conjunct1]
  note t7 = t [THEN conjunct2, THEN conjunct2, THEN conjunct2, THEN conjunct2, THEN conjunct2,
      THEN conjunct2, THEN conjunct1]
  note t9 = t [THEN conjunct2, THEN conjunct2, THEN conjunct2, THEN conjunct2, THEN conjunct2,
      THEN conjunct2, THEN conjunct2, THEN conjunct2]
  have a: "fst (with_statement 0 0 ?body sample_world) = Some (Raised boom)"
    unfolding t4 using r by simp
  have b: "length (deliveries (snd (with_statement 0 0 ?body sample_world))) = 2"
    unfolding t7 by (simp add: sample_world_simps)
  from t9 have d: "deliveries (snd (with_statement 0 0 ?body sample_world)) =
      deliveries ?w @
        [\<lparr>message =
            \<lparr>contents =
               [''exception'' \<mapsto> PStr (class_module boom @ ''.'' @ class_name boom),
                ''reason'' \<mapsto> PStr (safeunicode boom),
                ''action_status'' \<mapsto> PStr ''failed'',
                ''task_uuid'' \<mapsto> PStr (task_uuid (identification (heap ?w 0))),
                ''task_level'' \<mapsto> PStr (task_level (identification (heap ?w 0))),
                ''action_type'' \<mapsto> PStr (action_type (identification (heap ?w 0)))],
             serializer =
               (case serializers (heap ?w 0) of None \<Rightarrow> None | Some s \<Rightarrow> Some (failure s))\<rparr>,
          written_to = logger_of (heap ?w 0), within = 0,
          action_counter = numberOfMessages (heap ?w 0),
          serialized =
            serialize
              (case serializers (heap ?w 0) of None \<Rightarrow> None | Some s \<Rightarrow> Some (failure s))
              [''exception'' \<mapsto> PStr (class_module boom @ ''.'' @ class_name boom),
               ''reason'' \<mapsto> PStr (safeunicode boom),
               ''action_status'' \<mapsto> PStr ''failed'',
               ''task_uuid'' \<mapsto> PStr (task_uuid (identification (heap ?w 0))),
               ''task_level'' \<mapsto> PStr (task_level (identification (heap ?w 0))),
               ''action_type'' \<mapsto> PStr (action_type (identification (heap ?w 0)))]\<rparr>]"
    by (simp only: option.case)
  have c: "contents (message (last (deliveries (snd
        (with_statement 0 0 ?body sample_world))))) ''reason'' = Some (PStr ''boom'')"
    unfolding d by (simp add: boom_def safeunicode_def)
  from h1 h2 h3 a b c show ?thesis by simp
qed

text \<open>
  C6 as first stated does not hold for every scope. A body that finishes the action
  itself and then raises leaves nothing for \<open>__exit__\<close> to write: the exception goes on
  to the caller, but the only finish message of the action says \<open>succeeded\<close>. And a
  body that has popped the action off the stack makes \<open>__exit__\<close> raise
  \<open>IndexError\<close>: that error reaches the caller in place of the exception, and the
  action is not finished. And with a failure serializer that rejects the fields, no
  failure message reaches the logger and the validation failure reaches the caller in
  place of the exception.
\<close>

theorem C6_exit_finishes_counterexample:
  "fst (with_statement 0 0 finishing_body sample_world) =
     Some (Raised boom)
   \<and> length (deliveries (snd
        (with_statement 0 0 finishing_body sample_world))) = 2
   \<and> contents (message (last (deliveries (snd
        (with_statement 0 0 finishing_body sample_world)))))
        ''action_status'' = Some (PStr ''succeeded'')
   \<and> fst (with_statement 0 0 popping_body sample_world) =
       Some IndexError
   \<and> deliveries (snd
        (with_statement 0 0 popping_body sample_world)) =
       deliveries sample_world
   \<and> \<not> finished (heap (snd
        (with_statement 0 0 popping_body sample_world)) 0)
   \<and> fst (with_statement 0 0 raising_body strict_world) = Some (Raised invalid)
   \<and> logged (snd (with_statement 0 0 raising_body strict_world)) =
       logged strict_world"
proof -
  have u: "\<not> finished (heap sample_world 0)"
    by (simp add: sample_world_simps Action_init_def)
  let ?w1 = "snd (finish 0 None (snd (enter 0 0 sample_world)))"
  have f1: "finished (heap ?w1 0)"
    by (rule finish_sets_finished)
  have c1: "the_context ?w1 0 = [] @ [0]"
    by (simp add: sample_world_simps ExecutionContext_init_def)
  have x1: "exit 0 0 (Some boom) ?w1 = (Inr PNone, ?w1\<lparr>the_context := (the_context ?w1) (0 := [])\<rparr>)"
    using exit_top [OF c1, of 0 "Some boom"] f1 by (simp add: finish_finished)
  have d1: "deliveries ?w1 =
      deliveries (snd (enter 0 0 sample_world)) @
       [\<lparr>message =
           \<lparr>contents = (successFields (heap sample_world 0))
                (''action_status'' \<mapsto> PStr ''succeeded'') ++
              identification_fields (identification (heap sample_world 0)),
            serializer = map_option success (serializers (heap sample_world 0))\<rparr>,
         written_to = logger_of (heap sample_world 0), within = 0,
         action_counter = numberOfMessages (heap sample_world 0),
         serialized = serialize (map_option success (serializers (heap sample_world 0)))
           ((successFields (heap sample_world 0)) (''action_status'' \<mapsto> PStr ''succeeded'') ++
              identification_fields (identification (heap sample_world 0)))\<rparr>]"
    using u by (simp add: deliveries_finish_success)
  have a: "with_statement 0 0 finishing_body sample_world =
      (Some (Raised boom), ?w1\<lparr>the_context := (the_context ?w1) (0 := [])\<rparr>)"
    by (simp add: with_statement_def finishing_body_def split_beta x1)
  let ?w2 = "snd (step (Pop 0) (snd (enter 0 0 sample_world)))"
  have c2: "the_context ?w2 0 = []" "heap ?w2 = heap sample_world"
    "deliveries ?w2 = deliveries sample_world"
    by (simp_all add: pop_def sample_world_simps ExecutionContext_init_def)
  have b: "with_statement 0 0 popping_body sample_world =
      (Some IndexError, ?w2)"
    using exit_empty [OF c2(1), of 0 "Some boom"]
    by (simp add: with_statement_def popping_body_def split_beta del: step.simps)
  let ?w3 = "snd (enter 0 0 strict_world)"
  let ?w4 = "?w3\<lparr>the_context := (the_context ?w3) (0 := [])\<rparr>"
  have c3: "the_context ?w3 0 = [] @ [0]"
    by (simp add: strict_world_simps ExecutionContext_init_def)
  have u3: "\<not> finished (heap ?w4 0)"
    by (simp add: strict_world_simps Action_init_def)
  have r3: "fst (finish 0 (Some boom) ?w4) = Some (Raised invalid)"
    using u3 by (simp add: fst_finish strict_world_simps Action_init_def serialize_def refusing_def)
  have l3: "logged (snd (finish 0 (Some boom) ?w4)) = logged strict_world"
    using u3
    by (simp add: logged_def deliveries_finish_failure strict_world_simps Action_init_def
        serialize_def refusing_def)
  have x3: "exit 0 0 (Some boom) ?w3 = (Inl (Raised invalid), snd (finish 0 (Some boom) ?w4))"
    using exit_top [OF c3, of 0 "Some boom"] r3 by simp
  have c: "with_statement 0 0 raising_body strict_world =
      (Some (Raised invalid), snd (finish 0 (Some boom) ?w4))"
    by (simp add: with_statement_def raising_body_def split_beta x3)
  have ab: "fst (with_statement 0 0 finishing_body sample_world) =
     Some (Raised boom)
   \<and> length (deliveries (snd
        (with_statement 0 0 finishing_body sample_world))) = 2
   \<and> contents (message (last (deliveries (snd
        (with_statement 0 0 finishing_body sample_world)))))
        ''action_status'' = Some (PStr ''succeeded'')
   \<and> fst (with_statement 0 0 popping_body sample_world) =
       Some IndexError
   \<and> deliveries (snd
        (with_statement 0 0 popping_body sample_world)) =
       deliveries sample_world
   \<and> \<not> finished (heap (snd
        (with_statement 0 0 popping_body sample_world)) 0)"
    unfolding a b
    using u c2 d1 by (simp add: sample_world_simps identification_fields_def del: step.simps)
  have cc: "fst (with_statement 0 0 raising_body strict_world) = Some (Raised invalid)
   \<and> logged (snd (with_statement 0 0 raising_body strict_world)) =
       logged strict_world"
    unfolding c using l3 by simp
  from ab cc show ?thesis by blast
qed

text \<open>
  C7, as amended. On a Deferred that has not fired, \<open>finishAfter\<close> adds one
  continuation and does nothing else: the world is as before, so nothing is finished or
  waited for at that point. When the continuation runs, it calls \<open>finish\<close> with the
  exception of a \<open>Failure\<close>, with \<open>None\<close> for any other result, and returns what
  it received, unless the serializer rejects the finish message, in which case it raises
  that failure. So for an unfinished action and a Deferred that fires with a failure,
  the failure message with that exception's class and text is written, and when that
  write does not raise, a continuation registered afterwards receives the same failure.
  On a Deferred that has fired already, the continuation runs inside \<open>finishAfter\<close>:
  \<open>finish\<close> is called before \<open>finishAfter\<close> returns.
\<close>

theorem C7_finishAfter:
  assumes "fired d = None"
    and "runCallbacks (callbacks d) result w1 = (Failure x, w2)"
    and "\<not> finished (heap w2 self)"
    and "fst (finish self (Some x) w2) = None"
    and "fired d' = Some held"
  shows "finishAfter self d w = (d\<lparr>callbacks := callbacks d @ [finishAfter_done self]\<rparr>, w)
    \<and> finishAfter_done self (Failure y) w =
        (case fst (finish self (Some y) w) of Some err \<Rightarrow> Inl err | None \<Rightarrow> Inr (Failure y),
         snd (finish self (Some y) w))
    \<and> finishAfter_done self (Result r) w =
        (case fst (finish self None w) of Some err \<Rightarrow> Inl err | None \<Rightarrow> Inr (Result r),
         snd (finish self None w))
    \<and> fire (fst (finishAfter self d w)) result w1 =
        ((fst (finishAfter self d w))\<lparr>callbacks := [], fired := Some (Failure x)\<rparr>,
         snd (finish self (Some x) w2))
    \<and> fire (fst (addBoth k (fst (finishAfter self d w)) w)) result w1 =
        (let (res, w3) = runCallbacks [k] (Failure x) (snd (finish self (Some x) w2))
         in ((fst (addBoth k (fst (finishAfter self d w)) w))\<lparr>callbacks := [], fired := Some res\<rparr>,
             w3))
    \<and> deliveries (snd (fire (fst (finishAfter self d w)) result w1)) =
        deliveries w2 @
          [\<lparr>message =
              \<lparr>contents =
                 [''exception'' \<mapsto> PStr (class_module x @ ''.'' @ class_name x),
                  ''reason'' \<mapsto> PStr (safeunicode x),
                  ''action_status'' \<mapsto> PStr ''failed'',
                  ''task_uuid'' \<mapsto> PStr (task_uuid (identification (heap w2 self))),
                  ''task_level'' \<mapsto> PStr (task_level (identification (heap w2 self))),
                  ''action_type'' \<mapsto> PStr (action_type (identification (heap w2 self)))],
               serializer =
                 (case serializers (heap w2 self) of
                    None \<Rightarrow> None | Some s \<Rightarrow> Some (failure s))\<rparr>,
            written_to = logger_of (heap w2 self), within = self,
            action_counter = numberOfMessages (heap w2 self),
            serialized =
              serialize
                (case serializers (heap w2 self) of
                   None \<Rightarrow> None | Some s \<Rightarrow> Some (failure s))
                [''exception'' \<mapsto> PStr (class_module x @ ''.'' @ class_name x),
                 ''reason'' \<mapsto> PStr (safeunicode x),
                 ''action_status'' \<mapsto> PStr ''failed'',
                 ''task_uuid'' \<mapsto> PStr (task_uuid (identification (heap w2 self))),
                 ''task_level'' \<mapsto> PStr (task_level (identification (heap w2 self))),
                 ''action_type'' \<mapsto> PStr (action_type (identification (heap w2 self)))]\<rparr>]
    \<and> snd (finishAfter self d' w) =
        snd (finish self (case held of Failure z \<Rightarrow> Some z | Result r \<Rightarrow> None) w)
    \<and> finished (heap (snd (finishAfter self d' w)) self)"
proof -
  have reg: "finishAfter self d w = (d\<lparr>callbacks := callbacks d @ [finishAfter_done self]\<rparr>, w)"
    using assms(1) by (simp add: finishAfter_def addBoth_def)
  have done_f: "finishAfter_done self (Failure y) w =
        (case fst (finish self (Some y) w) of Some err \<Rightarrow> Inl err | None \<Rightarrow> Inr (Failure y),
         snd (finish self (Some y) w))"
    by (simp add: finishAfter_done_def split_beta Let_def)
  have done_r: "finishAfter_done self (Result r) w =
        (case fst (finish self None w) of Some err \<Rightarrow> Inl err | None \<Rightarrow> Inr (Result r),
         snd (finish self None w))"
    by (simp add: finishAfter_done_def split_beta Let_def)
  have run: "runCallbacks (callbacks d @ [finishAfter_done self]) result w1 =
      (Failure x, snd (finish self (Some x) w2))"
    using assms(2,4) by (simp add: runCallbacks_append finishAfter_done_def split_beta Let_def)
  have fired: "fire (fst (finishAfter self d w)) result w1 =
        ((fst (finishAfter self d w))\<lparr>callbacks := [], fired := Some (Failure x)\<rparr>,
         snd (finish self (Some x) w2))"
    using assms(1) run by (simp add: reg fire_def)
  have run2: "runCallbacks ((callbacks d @ [finishAfter_done self]) @ [k]) result w1 =
      runCallbacks [k] (Failure x) (snd (finish self (Some x) w2))"
    using run by (simp only: runCallbacks_append [of _ "[k]"] split_beta Let_def fst_conv snd_conv)
  have down: "fire (fst (addBoth k (fst (finishAfter self d w)) w)) result w1 =
        (let (res, w3) = runCallbacks [k] (Failure x) (snd (finish self (Some x) w2))
         in ((fst (addBoth k (fst (finishAfter self d w)) w))\<lparr>callbacks := [], fired := Some res\<rparr>,
             w3))"
    using assms(1) run2 by (simp add: reg fire_def addBoth_def split_beta Let_def)
  have msg: "deliveries (snd (finish self (Some x) w2)) =
        deliveries w2 @
          [\<lparr>message =
              \<lparr>contents =
                 [''exception'' \<mapsto> PStr (class_module x @ ''.'' @ class_name x),
                  ''reason'' \<mapsto> PStr (safeunicode x),
                  ''action_status'' \<mapsto> PStr ''failed'',
                  ''task_uuid'' \<mapsto> PStr (task_uuid (identification (heap w2 self))),
                  ''task_level'' \<mapsto> PStr (task_level (identification (heap w2 self))),
                  ''action_type'' \<mapsto> PStr (action_type (identification (heap w2 self)))],
               serializer =
                 (case serializers (heap w2 self) of
                    None \<Rightarrow> None | Some s \<Rightarrow> Some (failure s))\<rparr>,
            written_to = logger_of (heap w2 self), within = self,
            action_counter = numberOfMessages (heap w2 self),
            serialized =
              serialize
                (case serializers (heap w2 self) of
                   None \<Rightarrow> None | Some s \<Rightarrow> Some (failure s))
                [''exception'' \<mapsto> PStr (class_module x @ ''.'' @ class_name x),
                 ''reason'' \<mapsto> PStr (safeunicode x),
                 ''action_status'' \<mapsto> PStr ''failed'',
                 ''task_uuid'' \<mapsto> PStr (task_uuid (identification (heap w2 self))),
                 ''task_level'' \<mapsto> PStr (task_level (identification (heap w2 self))),
                 ''action_type'' \<mapsto> PStr (action_type (identification (heap w2 self)))]\<rparr>]"
    using assms(3)
    by (auto simp: deliveries_finish_failure identification_fields_def split: option.splits)
  have sync: "snd (finishAfter self d' w) =
        snd (finish self (case held of Failure z \<Rightarrow> Some z | Result r \<Rightarrow> None) w)"
    using assms(5)
    by (simp add: finishAfter_def addBoth_def finishAfter_done_def split_beta Let_def)
  have syncfin: "finished (heap (snd (finishAfter self d' w)) self)"
    unfolding sync by (rule finish_sets_finished)
  have msg': "deliveries (snd (fire (fst (finishAfter self d w)) result w1)) =
      deliveries (snd (finish self (Some x) w2))"
    unfolding fired by simp
  show ?thesis
    by (rule conjI [OF reg conjI [OF done_f conjI [OF done_r conjI [OF fired conjI [OF down
          conjI [OF msg' [unfolded msg] conjI [OF sync syncfin]]]]]]])
qed

theorem C7_finishAfter_witness:
  "fired (\<lparr>callbacks = [], fired = None\<rparr> :: unit deferred) = None
   \<and> runCallbacks (callbacks (\<lparr>callbacks = [], fired = None\<rparr> :: unit deferred))
        (Failure boom) sample_world = (Failure boom, sample_world)
   \<and> \<not> finished (heap sample_world 0)
   \<and> fst (finish 0 (Some boom) sample_world) = None
   \<and> fired (\<lparr>callbacks = [], fired = Some (Result ())\<rparr> :: unit deferred) = Some (Result ())
   \<and> snd (finishAfter 0 (\<lparr>callbacks = [], fired = None\<rparr> :: unit deferred) sample_world) =
       sample_world
   \<and> fst (fire (fst (finishAfter 0 (\<lparr>callbacks = [], fired = None\<rparr> :: unit deferred)
         sample_world)) (Failure boom) sample_world) =
       \<lparr>callbacks = [], fired = Some (Failure boom)\<rparr>
   \<and> contents (message (last (deliveries (snd
        (fire (fst (finishAfter 0 (\<lparr>callbacks = [], fired = None\<rparr> :: unit deferred)
           sample_world)) (Failure boom) sample_world))))) ''reason'' = Some (PStr ''boom'')"
proof -
  let ?d = "\<lparr>callbacks = [], fired = None\<rparr> :: unit deferred"
  let ?d' = "\<lparr>callbacks = [], fired = Some (Result ())\<rparr> :: unit deferred"
  have h1: "fired ?d = None" by simp
  have h2: "runCallbacks (callbacks ?d) (Failure boom) sample_world = (Failure boom, sample_world)"
    by simp
  have h3: "\<not> finished (heap sample_world 0)"
    by (simp add: sample_world_simps Action_init_def)
  have h4: "fst (finish 0 (Some boom) sample_world) = None"
    using h3 by (simp add: fst_finish sample_world_simps Action_init_def serialize_def tagging_def)
  have h5: "fired ?d' = Some (Result ())" by simp
  note t = C7_finishAfter [OF h1 h2 h3 h4 h5]
  note t1 = t [THEN conjunct1]
  note t4 = t [THEN conjunct2, THEN conjunct2, THEN conjunct2, THEN conjunct1]
  note t6 = t [THEN conjunct2, THEN conjunct2, THEN conjunct2, THEN conjunct2, THEN conjunct2,
      THEN conjunct1]
  have a: "snd (finishAfter 0 ?d sample_world) = sample_world"
    unfolding t1 by simp
  have b: "fst (fire (fst (finishAfter 0 ?d sample_world)) (Failure boom) sample_world) =
      \<lparr>callbacks = [], fired = Some (Failure boom)\<rparr>"
    unfolding t4 unfolding t1 by simp
  have c: "contents (message (last (deliveries (snd
        (fire (fst (finishAfter 0 ?d sample_world)) (Failure boom) sample_world)))))
        ''reason'' = Some (PStr ''boom'')"
    unfolding t6 by (simp add: boom_def safeunicode_def)
  from h1 h2 h3 h4 h5 a b c show ?thesis by simp
qed

text \<open>
  C7 as first stated does not hold for every Deferred: on one that has fired already,
  here with a plain result, \<open>finishAfter\<close> itself finishes the action and the finish
  message is written before it returns.
\<close>

theorem C7_finishAfter_counterexample:
  "\<not> finished (heap sample_world 0)
   \<and> finished (heap (snd (finishAfter 0
        (\<lparr>callbacks = [], fired = Some (Result ())\<rparr> :: unit deferred) sample_world)) 0)
   \<and> length (deliveries (snd (finishAfter 0
        (\<lparr>callbacks = [], fired = Some (Result ())\<rparr> :: unit deferred) sample_world))) =
      Suc (length (deliveries sample_world))
   \<and> contents (message (last (deliveries (snd (finishAfter 0
        (\<lparr>callbacks = [], fired = Some (Result ())\<rparr> :: unit deferred) sample_world)))))
        ''action_status'' = Some (PStr ''succeeded'')
   \<and> snd (finishAfter 0
        (\<lparr>callbacks = [], fired = Some (Result ())\<rparr> :: unit deferred) sample_world) \<noteq>
      sample_world"
proof -
  let ?d' = "\<lparr>callbacks = [], fired = Some (Result ())\<rparr> :: unit deferred"
  have u: "\<not> finished (heap sample_world 0)"
    by (simp add: sample_world_simps Action_init_def)
  have s: "snd (finishAfter 0 ?d' sample_world) = snd (finish 0 None sample_world)"
    by (simp add: finishAfter_def addBoth_def finishAfter_done_def split_beta Let_def)
  have f: "finished (heap (snd (finish 0 None sample_world)) 0)"
    by (rule finish_sets_finished)
  from u f have ne: "snd (finish 0 None sample_world) \<noteq> sample_world"
    by metis
  from u f ne show ?thesis
    unfolding s
    by (simp add: deliveries_finish_success identification_fields_def)
qed

text \<open>
  C8. \<open>addSuccessFields\<close> merges the given fields into the accumulated success fields,
  a given key overriding the earlier value and every other key kept, and changes nothing
  else. Once the action is finished the call has no effect that can be seen: it raises
  nothing and writes nothing, a later \<open>finish\<close> with any argument still does nothing,
  and every later sequence of calls raises what it would have raised and writes the
  messages it would have written without the call. The only thing that differs is the
  private accumulator of the finished action, which no call reads again.
\<close>

theorem C8_addSuccessFields:
  assumes "finished (heap w self)"
  shows "successFields (heap (addSuccessFields r flds v) r) = successFields (heap v r) ++ flds
    \<and> successFields (heap (addSuccessFields r flds v) r) k =
        (case flds k of None \<Rightarrow> successFields (heap v r) k | Some x \<Rightarrow> Some x)
    \<and> addSuccessFields r flds v =
        v\<lparr>heap := (heap v) (r := (heap v r)\<lparr>successFields := successFields (heap v r) ++ flds\<rparr>)\<rparr>
    \<and> deliveries (addSuccessFields self flds w) = deliveries w
    \<and> finish self e (addSuccessFields self flds w) = (None, addSuccessFields self flds w)
    \<and> observable (addSuccessFields self flds w) = observable w
    \<and> fst (exec cs (addSuccessFields self flds w)) = fst (exec cs w)
    \<and> observable (snd (exec cs (addSuccessFields self flds w))) = observable (snd (exec cs w))
    \<and> deliveries (snd (exec cs (addSuccessFields self flds w))) = deliveries (snd (exec cs w))
    \<and> logged (snd (exec cs (addSuccessFields self flds w))) = logged (snd (exec cs w))"
proof -
  have obs: "observable (addSuccessFields self flds w) = observable w"
    by (rule addSuccessFields_finished_observable [OF assms])
  note run = exec_observable [OF obs, of cs]
  note run1 = run [THEN conjunct1]
  note run2 = run [THEN conjunct2]
  have dl: "deliveries (snd (exec cs (addSuccessFields self flds w))) = deliveries (snd (exec cs w))"
    by (rule observable_deliveries [OF run2])
  have lg: "logged (snd (exec cs (addSuccessFields self flds w))) = logged (snd (exec cs w))"
    by (simp add: logged_def dl)
  have fin: "finish self e (addSuccessFields self flds w) = (None, addSuccessFields self flds w)"
    using assms by (simp add: finish_finished)
  have m0: "successFields (heap (addSuccessFields r flds v) r) = successFields (heap v r) ++ flds"
    by simp
  have merge: "successFields (heap (addSuccessFields r flds v) r) k =
      (case flds k of None \<Rightarrow> successFields (heap v r) k | Some x \<Rightarrow> Some x)"
    by (simp add: map_add_def)
  have frame: "addSuccessFields r flds v =
      v\<lparr>heap := (heap v) (r := (heap v r)\<lparr>successFields := successFields (heap v r) ++ flds\<rparr>)\<rparr>"
    by (simp add: addSuccessFields_def modify_def)
  have d0: "deliveries (addSuccessFields self flds w) = deliveries w"
    by simp
  show ?thesis
    by (rule conjI [OF m0 conjI [OF merge conjI [OF frame conjI [OF d0 conjI [OF fin
          conjI [OF obs conjI [OF run1 conjI [OF run2 conjI [OF dl lg]]]]]]]]])
qed

theorem C8_addSuccessFields_witness:
  "finished (heap (snd (finish 0 None sample_world)) 0)
   \<and> deliveries (addSuccessFields 0 [''x'' \<mapsto> PInt 1] (snd (finish 0 None sample_world))) =
       deliveries (snd (finish 0 None sample_world))
   \<and> fst (exec [Finish 0 (Some boom), Start 0 Map.empty]
          (addSuccessFields 0 [''x'' \<mapsto> PInt 1] (snd (finish 0 None sample_world)))) =
      fst (exec [Finish 0 (Some boom), Start 0 Map.empty] (snd (finish 0 None sample_world)))
   \<and> deliveries (snd (exec [Finish 0 (Some boom), Start 0 Map.empty]
          (addSuccessFields 0 [''x'' \<mapsto> PInt 1] (snd (finish 0 None sample_world))))) =
      deliveries (snd (exec [Finish 0 (Some boom), Start 0 Map.empty]
          (snd (finish 0 None sample_world))))"
proof -
  have h: "finished (heap (snd (finish 0 None sample_world)) 0)"
    by (rule finish_sets_finished)
  from C8_addSuccessFields [OF h, of 0 "[''x'' \<mapsto> PInt 1]" sample_world "''x''"
      None "[Finish 0 (Some boom), Start 0 Map.empty]"] h
  show ?thesis by blast
qed

text \<open>
  C9. The execution context is a last-in-first-out stack for each thread. \<open>push\<close>
  appends the action at the top; \<open>current\<close> yields the action pushed last and not yet
  popped, or \<open>None\<close> on an empty stack, and being a read it leaves the stack as it is;
  \<open>pop\<close> removes the top entry and raises \<open>IndexError\<close> on an empty stack. The stack
  of another thread is not touched.
\<close>

theorem C9_execution_context_lifo:
  "push t a ctx t = ctx t @ [a]
   \<and> current t (push t a ctx) = Some a
   \<and> pop t (push t a ctx) = Inr ctx
   \<and> current t (ctx (t := stk @ [a])) = Some a
   \<and> pop t (ctx (t := stk @ [a])) = Inr (ctx (t := stk))
   \<and> current t (ctx (t := [])) = None
   \<and> pop t (ctx (t := [])) = Inl IndexError
   \<and> current t ExecutionContext_init = None
   \<and> push t a ctx t' = (if t' = t then ctx t @ [a] else ctx t')"
  by (simp add: push_def pop_def current_def ExecutionContext_init_def)

text \<open>
  C10. In every message the action writes, its own \<open>task_uuid\<close>, \<open>task_level\<close> and
  \<open>action_type\<close> and the status set by the action win over fields of the same names
  given by the caller: whatever the extra fields passed to \<open>_start\<close>, \<open>startAction\<close>
  or \<open>startTask\<close> hold under those keys, the start message has the action's values and
  the status \<open>started\<close>; and whatever the success fields hold under them, the finish
  message has the action's values and the status of the outcome.
\<close>

theorem C10_identification_precedence:
  assumes "\<not> finished (heap w self)"
  shows "(let m = contents (message (last (deliveries (snd (Action_start self flds w)))));
              i = identification (heap w self)
          in m ''task_uuid'' = Some (PStr (task_uuid i)) \<and>
             m ''task_level'' = Some (PStr (task_level i)) \<and>
             m ''action_type'' = Some (PStr (action_type i)) \<and>
             m ''action_status'' = Some (PStr ''started''))
    \<and> (let w1 = snd (startAction t lgr atype sers flds uuid4 w);
            m = contents (message (last (deliveries w1)));
            i = identification (heap w1 (next_ref w))
        in m ''task_uuid'' = Some (PStr (task_uuid i)) \<and>
           m ''task_level'' = Some (PStr (task_level i)) \<and>
           m ''action_type'' = Some (PStr (action_type i)) \<and>
           action_type i = atype \<and>
           m ''action_status'' = Some (PStr ''started''))
    \<and> (let w1 = snd (startTask lgr atype sers flds uuid4 w);
            m = contents (message (last (deliveries w1)))
        in m ''task_uuid'' = Some (PStr uuid4) \<and>
           m ''task_level'' = Some (PStr ''/'') \<and>
           m ''action_type'' = Some (PStr atype) \<and>
           m ''action_status'' = Some (PStr ''started''))
    \<and> (let m = contents (message (last (deliveries (snd (finish self exception w)))));
            i = identification (heap w self)
        in m ''task_uuid'' = Some (PStr (task_uuid i)) \<and>
           m ''task_level'' = Some (PStr (task_level i)) \<and>
           m ''action_type'' = Some (PStr (action_type i)) \<and>
           m ''action_status'' =
             Some (PStr (if exception = None then ''succeeded'' else ''failed'')))"
proof -
  have a: "let m = contents (message (last (deliveries (snd (Action_start self flds w)))));
              i = identification (heap w self)
          in m ''task_uuid'' = Some (PStr (task_uuid i)) \<and>
             m ''task_level'' = Some (PStr (task_level i)) \<and>
             m ''action_type'' = Some (PStr (action_type i)) \<and>
             m ''action_status'' = Some (PStr ''started'')"
    by (simp add: deliveries_Action_start identification_fields_def)
  have b: "let w1 = snd (startAction t lgr atype sers flds uuid4 w);
            m = contents (message (last (deliveries w1)));
            i = identification (heap w1 (next_ref w))
        in m ''task_uuid'' = Some (PStr (task_uuid i)) \<and>
           m ''task_level'' = Some (PStr (task_level i)) \<and>
           m ''action_type'' = Some (PStr (action_type i)) \<and>
           action_type i = atype \<and>
           m ''action_status'' = Some (PStr ''started'')"
    by (simp add: snd_startAction snd_startTask deliveries_Action_start heap_child
        identification_fields_def Action_init_def split: option.splits)
  have c: "let w1 = snd (startTask lgr atype sers flds uuid4 w);
            m = contents (message (last (deliveries w1)))
        in m ''task_uuid'' = Some (PStr uuid4) \<and>
           m ''task_level'' = Some (PStr ''/'') \<and>
           m ''action_type'' = Some (PStr atype) \<and>
           m ''action_status'' = Some (PStr ''started'')"
    by (simp add: split_beta deliveries_startTask identification_fields_def)
  have d: "let m = contents (message (last (deliveries (snd (finish self exception w)))));
            i = identification (heap w self)
        in m ''task_uuid'' = Some (PStr (task_uuid i)) \<and>
           m ''task_level'' = Some (PStr (task_level i)) \<and>
           m ''action_type'' = Some (PStr (action_type i)) \<and>
           m ''action_status'' =
             Some (PStr (if exception = None then ''succeeded'' else ''failed''))"
    using assms
    by (cases exception)
      (simp_all add: deliveries_finish_success deliveries_finish_failure identification_fields_def)
  from a b c d show ?thesis by blast
qed

theorem C10_identification_precedence_witness:
  "\<not> finished (heap (addSuccessFields 0
        [''task_level'' \<mapsto> PStr ''/9/'', ''action_status'' \<mapsto> PInt 0] sample_world) 0)
   \<and> contents (message (last (deliveries (snd (finish 0 None (addSuccessFields 0
        [''task_level'' \<mapsto> PStr ''/9/'', ''action_status'' \<mapsto> PInt 0] sample_world))))))
        ''task_level'' = Some (PStr ''/'')
   \<and> contents (message (last (deliveries (snd (finish 0 None (addSuccessFields 0
        [''task_level'' \<mapsto> PStr ''/9/'', ''action_status'' \<mapsto> PInt 0] sample_world))))))
        ''action_status'' = Some (PStr ''succeeded'')
   \<and> contents (message (last (deliveries (snd (startTask 7 ''t:b'' None
        [''task_uuid'' \<mapsto> PStr ''mine'', ''action_status'' \<mapsto> PStr ''failed'']
        ''u2'' (addSuccessFields 0
        [''task_level'' \<mapsto> PStr ''/9/'', ''action_status'' \<mapsto> PInt 0] sample_world))))))
        ''task_uuid'' = Some (PStr ''u2'')
   \<and> contents (message (last (deliveries (snd (startTask 7 ''t:b'' None
        [''task_uuid'' \<mapsto> PStr ''mine'', ''action_status'' \<mapsto> PStr ''failed'']
        ''u2'' (addSuccessFields 0
        [''task_level'' \<mapsto> PStr ''/9/'', ''action_status'' \<mapsto> PInt 0] sample_world))))))
        ''action_status'' = Some (PStr ''started'')"
proof -
  let ?w = "addSuccessFields 0
        [''task_level'' \<mapsto> PStr ''/9/'', ''action_status'' \<mapsto> PInt 0] sample_world"
  have h: "\<not> finished (heap ?w 0)"
    by (simp add: addSuccessFields_def sample_world_simps Action_init_def)
  have i: "identification (heap ?w 0) =
      \<lparr>task_uuid = ''u1'', task_level = ''/'', action_type = ''t:a''\<rparr>"
    by (simp add: addSuccessFields_def sample_world_simps Action_init_def)
  from C10_identification_precedence [OF h, of
      "[''task_uuid'' \<mapsto> PStr ''mine'', ''action_status'' \<mapsto> PStr ''failed'']"
      0 7 "''t:b''" None "''u2''" None] h i
  show ?thesis
    by (simp add: split_beta Let_def)
qed

end
